theory Spec2Isabelle
  imports Main "HOL-Library.Sublist" "HOL-Library.Multiset"
begin

section \<open>Python values and exceptions\<close>

text \<open>
  The scripts are Python 2. The values that reach the code modelled here are scalars:
  \<^verbatim>\<open>None\<close>, booleans, integers and byte strings. Exceptions are values of
  \<open>exn\<close>; a function that may raise returns \<open>exn + 'a\<close> with \<open>Inl\<close> the exception.
  AttributeError and UnboundLocalError are given with the name of the attribute or
  variable in place of their message.
  \<open>Unmodelled\<close> is not a Python exception: it marks a construct of the format
  language that the model does not cover.
\<close>

datatype pyval = PNone | PBool bool | PInt int | PStr string

datatype exn =
    TypeError string
  | KeyError string
  | IndexError
  | ValueError string
  | AttributeError string
  | UnboundLocalError string
  | OSError string
  | Exception string
  | Unmodelled string

text \<open>
  \<^verbatim>\<open>a == b\<close> on scalars, which is also how the keys of a dict are told apart: a
  boolean is an integer (\<^verbatim>\<open>True == 1\<close>, \<^verbatim>\<open>False == 0\<close>, with equal hashes), and values
  of different kinds are different otherwise. \<open>dict_key\<close> gives the representative
  under which a key is stored.
\<close>

definition dict_key :: "pyval \<Rightarrow> pyval" where
  "dict_key v = (case v of PBool b \<Rightarrow> PInt (if b then 1 else 0) | _ \<Rightarrow> v)"

definition py_eq :: "pyval \<Rightarrow> pyval \<Rightarrow> bool" where
  "py_eq a b \<longleftrightarrow> dict_key a = dict_key b"

text \<open>\<^verbatim>\<open>type(v).__name__\<close>, for the messages of TypeError.\<close>

definition type_name :: "pyval \<Rightarrow> string" where
  "type_name v = (case v of PNone \<Rightarrow> ''NoneType'' | PBool b \<Rightarrow> ''bool''
                  | PInt i \<Rightarrow> ''int'' | PStr s \<Rightarrow> ''str'')"

text \<open>\<^verbatim>\<open>x in y\<close> for a string \<open>x\<close>: substring test on a string, TypeError on a value
  that is not iterable.\<close>

fun py_in :: "string \<Rightarrow> pyval \<Rightarrow> exn + bool" where
  "py_in x (PStr s) = Inr (sublist x s)"
| "py_in x PNone = Inl (TypeError ''argument of type 'NoneType' is not iterable'')"
| "py_in x (PBool b) = Inl (TypeError ''argument of type 'bool' is not iterable'')"
| "py_in x (PInt i) = Inl (TypeError ''argument of type 'int' is not iterable'')"

text \<open>Sequencing of calls that may raise.\<close>

definition bindE :: "exn + 'a \<Rightarrow> ('a \<Rightarrow> exn + 'b) \<Rightarrow> exn + 'b" where
  "bindE m f = (case m of Inl e \<Rightarrow> Inl e | Inr v \<Rightarrow> f v)"

text \<open>A \<^verbatim>\<open>for\<close> loop whose body may raise and whose effect is not kept.\<close>

fun for_each :: "('a \<Rightarrow> exn + unit) \<Rightarrow> 'a list \<Rightarrow> exn + unit" where
  "for_each f [] = Inr ()"
| "for_each f (x # xs) = bindE (f x) (\<lambda>u. for_each f xs)"

section \<open>bcf3.0/with_ivs/lib/cleaner.py\<close>

text \<open>
  \<^verbatim>\<open>os.environ\<close> is a map from names to strings. \<^verbatim>\<open>Cleaner.__init__\<close> reads the
  \<^verbatim>\<open>OS_*\<close> variables into attributes and then builds the neutron and keystone clients;
  the two client constructors are external and are passed in as \<open>mk_neutron\<close> and
  \<open>mk_keystone\<close>.
\<close>

type_synonym environ = "string \<rightharpoonup> string"

record ('n, 'k) Cleaner =
  OS_AUTH_URL :: pyval
  OS_TENANT_ID :: pyval
  OS_TENANT_NAME :: pyval
  OS_USERNAME :: pyval
  OS_PASSWORD :: pyval
  OS_REGION_NAME :: pyval
  neutron_client :: 'n
  keystone_client :: 'k

text \<open>\<^verbatim>\<open>self.X = None; if 'X' in os.environ: self.X = os.environ['X']\<close>\<close>

definition environ_or_None :: "environ \<Rightarrow> string \<Rightarrow> pyval" where
  "environ_or_None env k = (case env k of None \<Rightarrow> PNone | Some v \<Rightarrow> PStr v)"

text \<open>\<^verbatim>\<open>os.environ['X']\<close>\<close>

definition environ_get :: "environ \<Rightarrow> string \<Rightarrow> exn + pyval" where
  "environ_get env k = (case env k of None \<Rightarrow> Inl (KeyError k) | Some v \<Rightarrow> Inr (PStr v))"

definition Cleaner_init ::
  "(pyval \<Rightarrow> pyval \<Rightarrow> pyval \<Rightarrow> pyval \<Rightarrow> pyval \<Rightarrow> exn + 'n) \<Rightarrow>
   (pyval \<Rightarrow> pyval \<Rightarrow> pyval \<Rightarrow> pyval \<Rightarrow> pyval \<Rightarrow> exn + 'k) \<Rightarrow>
   environ \<Rightarrow> exn + ('n, 'k) Cleaner" where
  "Cleaner_init mk_neutron mk_keystone env =
    (let auth_url = environ_or_None env ''OS_AUTH_URL'';
         tenant_id = environ_or_None env ''OS_TENANT_ID'';
         tenant_name = environ_or_None env ''OS_TENANT_NAME'';
         username = environ_or_None env ''OS_USERNAME'';
         password = environ_or_None env ''OS_PASSWORD'';
         region0 = PNone
     in case py_in ''OS_REGION_NAME'' region0 of
          Inl e \<Rightarrow> Inl e
        | Inr present \<Rightarrow>
           (case (if present then environ_get env ''OS_REGION_NAME'' else Inr region0) of
              Inl e \<Rightarrow> Inl e
            | Inr region \<Rightarrow>
               (case mk_neutron auth_url username password tenant_id tenant_name of
                  Inl e \<Rightarrow> Inl e
                | Inr nc \<Rightarrow>
                   (case mk_keystone auth_url username password tenant_id tenant_name of
                      Inl e \<Rightarrow> Inl e
                    | Inr kc \<Rightarrow>
                       Inr \<lparr>OS_AUTH_URL = auth_url, OS_TENANT_ID = tenant_id,
                            OS_TENANT_NAME = tenant_name, OS_USERNAME = username,
                            OS_PASSWORD = password, OS_REGION_NAME = region,
                            neutron_client = nc, keystone_client = kc\<rparr>))))"

section \<open>openstack/big_patch.py: TimedCommand\<close>

text \<open>
  A command is a string or an argument vector. The operating system is an oracle: asked
  for the \<open>n\<close>-th child process of a run, with the command, the shell flag and the
  timeout of the attempt, it says what the runner finds when \<^verbatim>\<open>thread.join(timeout)\<close>
  returns:
  \<^item> \<open>SpawnFails e\<close>: the thread has ended, \<^verbatim>\<open>subprocess.Popen\<close> raised \<open>e\<close> and the thread
    recorded the error;
  \<^item> \<open>Completes out err\<close>: the thread has ended, \<^verbatim>\<open>communicate()\<close> returned \<open>(out, err)\<close>;
  \<^item> \<open>Overruns out err\<close>: the thread is alive and the child is running; once the child
    has been sent \<^verbatim>\<open>terminate()\<close>, \<^verbatim>\<open>communicate()\<close> returns \<open>(out, err)\<close>;
  \<^item> \<open>Outlives\<close>: the thread is alive and the child is running; after \<^verbatim>\<open>terminate()\<close>
    \<^verbatim>\<open>communicate()\<close> does not return, because the child ignores or handles
    \<^verbatim>\<open>SIGTERM\<close>, or because a process it started (the shell's, with \<^verbatim>\<open>shell=True\<close>: the
    signal goes to the shell alone) keeps the pipes open and never ends;
  \<^item> \<open>EndsLate out err\<close>: the thread is alive, and the child ends and is waited for
    by \<^verbatim>\<open>communicate()\<close> before \<^verbatim>\<open>terminate()\<close> is called on it;
  \<^item> \<open>SpawnPending\<close>: the thread is alive and \<^verbatim>\<open>Popen\<close> has not returned yet, so
    \<^verbatim>\<open>self.process\<close> is still what it was before the attempt.

  Every attempt is logged with the arguments \<^verbatim>\<open>Popen\<close> received, the timeout of the
  join and whether \<^verbatim>\<open>terminate()\<close> was delivered to its child.
\<close>

datatype cmdline = CmdStr string | CmdArgv "string list"

datatype outcome =
    SpawnFails string
  | Completes string string
  | Overruns string string
  | Outlives
  | EndsLate string string
  | SpawnPending

text \<open>The value of \<^verbatim>\<open>self.errors\<close>: the captured standard error, or one of the two
  messages the runner builds itself,
  \<^verbatim>\<open>'Error opening process "%s": %s' % (self.cmd, e)\<close> and
  \<^verbatim>\<open>"Timed out waiting for command '%s' to finish." % self.cmd\<close>.\<close>

datatype errtext = Stderr string | OpenError cmdline string | TimeoutError cmdline

text \<open>
  What a call of \<^verbatim>\<open>run\<close> does: it returns the pair \<^verbatim>\<open>(self.resp, self.errors)\<close>, it
  raises, or it never returns (\<open>Hang\<close>), blocked in the \<^verbatim>\<open>thread.join()\<close> that follows
  \<^verbatim>\<open>terminate()\<close> and has no timeout.
\<close>

datatype run_result = Result "string option \<times> errtext option" | Raise exn | Hang

record TimedCommand =
  tc_cmd :: cmdline
  tc_process :: "nat option"
  tc_retries :: nat
  tc_resp :: "string option"
  tc_errors :: "errtext option"

record attempt =
  a_cmd :: cmdline
  a_shell :: bool
  a_timeout :: nat
  a_outcome :: outcome
  a_terminated :: bool

type_synonym os = "nat \<Rightarrow> cmdline \<Rightarrow> bool \<Rightarrow> nat \<Rightarrow> outcome"

definition TimedCommand_init :: "cmdline \<Rightarrow> TimedCommand" where
  "TimedCommand_init c =
     \<lparr>tc_cmd = c, tc_process = None, tc_retries = 0, tc_resp = None, tc_errors = None\<rparr>"

text \<open>
  \<^verbatim>\<open>run(self, timeout=60, retries=0, shell=False)\<close>. The retry is the source's recursive
  call \<^verbatim>\<open>self.run(timeout, retries)\<close>: it passes no \<^verbatim>\<open>shell\<close>, so the callee runs with
  the default \<^verbatim>\<open>shell=False\<close>. \<^verbatim>\<open>self.retries\<close> counts the retries made so far on this
  object and bounds the recursion.

  When the thread is alive after the join, the runner calls \<^verbatim>\<open>self.process.terminate()\<close>
  and then \<^verbatim>\<open>thread.join()\<close>. The script is Python 2, where \<^verbatim>\<open>terminate()\<close> is
  \<^verbatim>\<open>os.kill(self.pid, SIGTERM)\<close>, which raises \<^verbatim>\<open>OSError\<close> for a process that has ended
  and been waited for (its process id not being in use again): so it does with
  \<open>EndsLate\<close>, and with \<open>SpawnPending\<close> on a retry, where \<^verbatim>\<open>self.process\<close> is the child of
  the attempt before. With \<open>SpawnPending\<close> on a fresh object \<^verbatim>\<open>self.process\<close> is \<^verbatim>\<open>None\<close>
  and the call raises AttributeError.
\<close>

function run :: "os \<Rightarrow> nat \<Rightarrow> nat \<Rightarrow> bool \<Rightarrow> TimedCommand \<times> attempt list \<Rightarrow>
    run_result \<times> TimedCommand \<times> attempt list" where
  "run os timeout retries shell (self, tr) =
    (case os (length tr) (tc_cmd self) shell timeout of
       SpawnFails e \<Rightarrow>
         (let self1 = self\<lparr>tc_errors := Some (OpenError (tc_cmd self) e)\<rparr>;
              tr1 = tr @ [\<lparr>a_cmd = tc_cmd self, a_shell = shell, a_timeout = timeout,
                            a_outcome = SpawnFails e, a_terminated = False\<rparr>]
          in (Result (tc_resp self1, tc_errors self1), self1, tr1))
     | Completes out err \<Rightarrow>
         (let self1 = self\<lparr>tc_process := Some (length tr), tc_resp := Some out,
                            tc_errors := Some (Stderr err)\<rparr>;
              tr1 = tr @ [\<lparr>a_cmd = tc_cmd self, a_shell = shell, a_timeout = timeout,
                            a_outcome = Completes out err, a_terminated = False\<rparr>]
          in (Result (tc_resp self1, tc_errors self1), self1, tr1))
     | Overruns out err \<Rightarrow>
         (let self1 = self\<lparr>tc_process := Some (length tr), tc_resp := Some out,
                            tc_errors := Some (Stderr err)\<rparr>;
              tr1 = tr @ [\<lparr>a_cmd = tc_cmd self, a_shell = shell, a_timeout = timeout,
                            a_outcome = Overruns out err, a_terminated = True\<rparr>]
          in if tc_retries self1 < retries
             then run os timeout retries False (self1\<lparr>tc_retries := tc_retries self1 + 1\<rparr>, tr1)
             else (let self2 = self1\<lparr>tc_errors := Some (TimeoutError (tc_cmd self1))\<rparr>
                   in (Result (tc_resp self2, tc_errors self2), self2, tr1)))
     | Outlives \<Rightarrow>
         (let self1 = self\<lparr>tc_process := Some (length tr)\<rparr>;
              tr1 = tr @ [\<lparr>a_cmd = tc_cmd self, a_shell = shell, a_timeout = timeout,
                            a_outcome = Outlives, a_terminated = True\<rparr>]
          in (Hang, self1, tr1))
     | EndsLate out err \<Rightarrow>
         (let self1 = self\<lparr>tc_process := Some (length tr), tc_resp := Some out,
                            tc_errors := Some (Stderr err)\<rparr>;
              tr1 = tr @ [\<lparr>a_cmd = tc_cmd self, a_shell = shell, a_timeout = timeout,
                            a_outcome = EndsLate out err, a_terminated = False\<rparr>]
          in (Raise (OSError ''[Errno 3] No such process''), self1, tr1))
     | SpawnPending \<Rightarrow>
         (let tr1 = tr @ [\<lparr>a_cmd = tc_cmd self, a_shell = shell, a_timeout = timeout,
                            a_outcome = SpawnPending, a_terminated = False\<rparr>]
          in case tc_process self of
               None \<Rightarrow> (Raise (AttributeError ''terminate''), self, tr1)
             | Some child \<Rightarrow> (Raise (OSError ''[Errno 3] No such process''), self, tr1)))"
  by pat_completeness auto
termination
  by (relation "measure (\<lambda>(os, timeout, retries, shell, self, tr). retries - tc_retries self)")
     auto

text \<open>An attempt overran when its thread was still alive after the join with timeout
  and its child ended once terminated.\<close>

definition overran :: "attempt \<Rightarrow> bool" where
  "overran a = (case a_outcome a of Overruns out err \<Rightarrow> True | _ \<Rightarrow> False)"

section \<open>String formatting\<close>

text \<open>\<^verbatim>\<open>str(v)\<close> for a scalar; \<^verbatim>\<open>bool(v)\<close> as the test of an \<^verbatim>\<open>if\<close>.\<close>

function str_nat :: "nat \<Rightarrow> string" where
  "str_nat n = (if n < 10 then [''0123456789'' ! n]
                else str_nat (n div 10) @ [''0123456789'' ! (n mod 10)])"
  by pat_completeness auto
termination
  by (relation "measure id") auto

definition str_int :: "int \<Rightarrow> string" where
  "str_int i = (if i < 0 then CHR ''-'' # str_nat (nat (- i)) else str_nat (nat i))"

fun py_str :: "pyval \<Rightarrow> string" where
  "py_str PNone = ''None''"
| "py_str (PBool b) = (if b then ''True'' else ''False'')"
| "py_str (PInt i) = str_int i"
| "py_str (PStr s) = s"

fun py_truthy :: "pyval \<Rightarrow> bool" where
  "py_truthy PNone = False"
| "py_truthy (PBool b) = b"
| "py_truthy (PInt i) = (i \<noteq> 0)"
| "py_truthy (PStr s) = (s \<noteq> [])"

text \<open>
  \<^verbatim>\<open>fmt % d\<close> for a dict \<open>d\<close>, as a scanner over the format string. The templates of the
  scripts use two forms, \<^verbatim>\<open>%(key)s\<close> and plain text; \<^verbatim>\<open>%%\<close> is a literal percent sign.
  A key ends at the parenthesis that closes it (nested parentheses are counted) and is
  looked up at once: a missing key raises KeyError. A format that ends inside a
  conversion raises ValueError. Flags, widths and conversions other than \<^verbatim>\<open>s\<close> are not
  modelled: the scanner stops with \<open>Unmodelled\<close> there.
\<close>

datatype fmt_state = Plain | Percent | InKey nat string | Conv pyval

fun format_scan :: "(string \<rightharpoonup> pyval) \<Rightarrow> fmt_state \<Rightarrow> string \<Rightarrow> exn + string" where
  "format_scan d Plain [] = Inr []"
| "format_scan d Plain (c # cs) =
     (if c = CHR ''%'' then format_scan d Percent cs
      else map_sum id ((#) c) (format_scan d Plain cs))"
| "format_scan d Percent [] = Inl (ValueError ''incomplete format'')"
| "format_scan d Percent (c # cs) =
     (if c = CHR ''%'' then map_sum id ((#) c) (format_scan d Plain cs)
      else if c = CHR ''('' then format_scan d (InKey 0 []) cs
      else Inl (Unmodelled [CHR ''%'', c]))"
| "format_scan d (InKey depth k) [] = Inl (ValueError ''incomplete format key'')"
| "format_scan d (InKey depth k) (c # cs) =
     (if c = CHR '')'' \<and> depth = 0 then
        (case d (rev k) of
           None \<Rightarrow> Inl (KeyError (rev k))
         | Some v \<Rightarrow> format_scan d (Conv v) cs)
      else if c = CHR '')'' then format_scan d (InKey (depth - 1) (c # k)) cs
      else if c = CHR ''('' then format_scan d (InKey (depth + 1) (c # k)) cs
      else format_scan d (InKey depth (c # k)) cs)"
| "format_scan d (Conv v) [] = Inl (ValueError ''incomplete format'')"
| "format_scan d (Conv v) (c # cs) =
     (if c = CHR ''s'' then map_sum id ((@) (py_str v)) (format_scan d Plain cs)
      else Inl (Unmodelled [c]))"

definition py_format :: "string \<Rightarrow> (string \<rightharpoonup> pyval) \<Rightarrow> exn + string" where
  "py_format fmt d = format_scan d Plain fmt"

text \<open>\<^verbatim>\<open>s.replace(c, r)\<close> for a pattern of one character.\<close>

definition replace_char :: "char \<Rightarrow> string \<Rightarrow> string \<Rightarrow> string" where
  "replace_char c r s = concat (map (\<lambda>x. if x = c then r else [x]) s)"

section \<open>openstack/big_patch.py: PuppetTemplate\<close>

text \<open>
  The object holds \<^verbatim>\<open>self.settings\<close>, a dict read by key only, and the list
  \<^verbatim>\<open>self.files_to_replace\<close>. The constructor's argument is a dict that is iterated:
  it is an association list in its iteration order.

  \<^verbatim>\<open>main_body\<close> is the class attribute of the source, character for character.
  \<^verbatim>\<open>neutron_body\<close> (lines 915 to 1555 of the source, a text with no percent sign in it)
  and \<^verbatim>\<open>bond_and_lldpd_configuration\<close> (lines 1557 to 1880) are long Puppet texts; they
  are fields of \<open>bodies\<close>, given to \<open>get_string\<close>.
\<close>

record PuppetTemplate =
  pt_settings :: "string \<rightharpoonup> pyval"
  files_to_replace :: "(string \<times> string) list"

record bodies =
  neutron_body :: string
  bond_and_lldpd_configuration :: string

definition default_settings :: "(string \<times> pyval) list" where
  "default_settings =
    [(''bond_int0'', PStr []), (''bond_int1'', PStr []), (''bond_interfaces'', PStr []),
     (''neutron_id'', PStr []), (''bigswitch_servers'', PStr []),
     (''bigswitch_serverauth'', PStr []), (''network_vlan_ranges'', PStr []),
     (''physical_bridge'', PStr ''br-ovs-bond0''), (''bridge_mappings'', PStr []),
     (''neutron_path'', PStr []), (''neutron_restart_refresh_only'', PStr []),
     (''offline_mode'', PStr []), (''bond_mode'', PStr []),
     (''lldp_advertised_name'', PStr [])]"

text \<open>\<^verbatim>\<open>for key in settings: self.settings[key] = settings[key]\<close>\<close>

fun assign_all :: "(string \<times> pyval) list \<Rightarrow> (string \<rightharpoonup> pyval) \<Rightarrow> (string \<rightharpoonup> pyval)" where
  "assign_all [] m = m"
| "assign_all ((k, v) # kvs) m = assign_all kvs (m(k \<mapsto> v))"

definition PuppetTemplate_init :: "(string \<times> pyval) list \<Rightarrow> PuppetTemplate" where
  "PuppetTemplate_init settings =
     \<lparr>pt_settings = assign_all settings (map_of default_settings), files_to_replace = []\<rparr>"

definition add_replacement_file :: "string \<Rightarrow> string \<Rightarrow> PuppetTemplate \<Rightarrow> PuppetTemplate" where
  "add_replacement_file path contents self =
     self\<lparr>files_to_replace := files_to_replace self @ [(path, contents)]\<rparr>"

definition main_body :: string where
  "main_body = ''\<newline>$neutron_id = '%(neutron_id)s'\<newline>$bigswitch_serverauth = '%(bigswitch_serverauth)s'\<newline>$bigswitch_servers = '%(bigswitch_servers)s'\<newline>$bond_interfaces = '%(bond_interfaces)s'\<newline>$network_vlan_ranges = '%(network_vlan_ranges)s'\<newline>$bond_int0 = '%(bond_int0)s'\<newline>$bond_int1 = '%(bond_int1)s'\<newline>$phy_bridge = '%(physical_bridge)s'\<newline>$ovs_bridge_mappings = '%(bridge_mappings)s'\<newline>$neutron_restart_refresh_only = '%(neutron_restart_refresh_only)s'\<newline># delay in milliseconds before bond interface is used after coming online\<newline>$bond_updelay = '15000'\<newline># time in seconds between lldp transmissions\<newline>$lldp_transmit_interval = '5'\<newline>$offline_mode = %(offline_mode)s\<newline>$bond_mode = %(bond_mode)s\<newline>$lldp_advertised_name = '%(lldp_advertised_name)s'\<newline>''"

text \<open>The Puppet resource of one replacement file, from the template in \<^verbatim>\<open>get_string\<close>.\<close>

definition file_body :: string where
  "file_body = ''\<newline>file {'%(path)s':\<newline>ensure => file,\<newline>path => '%(path)s',\<newline>mode => 0755,\<newline>notify => Exec['restartneutronservices'],\<newline>require => Exec['neutronfilespresent'],\<newline>content => '%(escaped_content)s'\<newline>}''"

definition file_resource :: "string \<times> string \<Rightarrow> exn + string" where
  "file_resource pc =
     (let escaped = replace_char (CHR 0x27) [CHR 0x5C, CHR 0x27]
                      (replace_char (CHR 0x5C) [CHR 0x5C, CHR 0x5C] (snd pc))
      in py_format file_body
           [''path'' \<mapsto> PStr (fst pc), ''escaped_content'' \<mapsto> PStr escaped])"

fun file_resources :: "(string \<times> string) list \<Rightarrow> string \<Rightarrow> exn + string" where
  "file_resources [] manifest = Inr manifest"
| "file_resources (pc # pcs) manifest =
     (case file_resource pc of
        Inl e \<Rightarrow> Inl e
      | Inr r \<Rightarrow> file_resources pcs (manifest @ r))"

text \<open>\<^verbatim>\<open>self.settings[key]\<close>\<close>

definition setting :: "PuppetTemplate \<Rightarrow> string \<Rightarrow> exn + pyval" where
  "setting self k =
     (case pt_settings self k of None \<Rightarrow> Inl (KeyError k) | Some v \<Rightarrow> Inr v)"

definition get_string :: "bodies \<Rightarrow> PuppetTemplate \<Rightarrow> exn + string" where
  "get_string B self =
    (case py_format main_body (pt_settings self) of
       Inl e \<Rightarrow> Inl e
     | Inr manifest \<Rightarrow>
        (case setting self ''neutron_path'' of
           Inl e \<Rightarrow> Inl e
         | Inr np \<Rightarrow>
            (case (if py_truthy np
                   then map_sum id ((@) manifest) (py_format (neutron_body B) (pt_settings self))
                   else Inr manifest) of
               Inl e \<Rightarrow> Inl e
             | Inr manifest1 \<Rightarrow>
                (case setting self ''bond_interfaces'' of
                   Inl e \<Rightarrow> Inl e
                 | Inr bi \<Rightarrow>
                    file_resources (files_to_replace self)
                      (if py_truthy bi then manifest1 @ bond_and_lldpd_configuration B
                       else manifest1)))))"

section \<open>cloudstack/big_patch.py: Node and generate_interface_config\<close>

text \<open>
  An entry of the YAML configuration is a scalar or a sequence of scalars;
  \<^verbatim>\<open>get_raw_value\<close> takes the first element of a sequence. A configuration dict is a
  map from keys to entries.
\<close>

datatype cval = One pyval | Many "pyval list"

type_synonym dict = "string \<rightharpoonup> cval"

definition get_raw_value :: "dict \<Rightarrow> string \<Rightarrow> exn + pyval" where
  "get_raw_value dic key =
     (case dic key of
        None \<Rightarrow> Inl (KeyError key)
      | Some (One v) \<Rightarrow> Inr v
      | Some (Many []) \<Rightarrow> Inl IndexError
      | Some (Many (v # rest)) \<Rightarrow> Inr v)"

text \<open>
  The attributes of a \<^verbatim>\<open>Node\<close>. \<^verbatim>\<open>management_bond\<close> is set only on a management
  node (\<open>None\<close>: the attribute does not exist, and reading it raises AttributeError,
  given here with the attribute's name); \<^verbatim>\<open>bridges\<close> is Python's \<^verbatim>\<open>None\<close> on a
  management node and the list of bridge dicts otherwise.
\<close>

record Node =
  hostname :: pyval
  host_name_label :: pyval
  pxe_gw :: pyval
  node_username :: pyval
  node_password :: pyval
  role :: pyval
  mysql_root_pwd :: pyval
  cloud_db_pwd :: pyval
  bond_name :: pyval
  bond_interfaces :: "pyval list"
  pxe_interface :: dict
  xenserver_pool :: pyval
  management_bond :: "dict option"
  bridges :: "dict list option"

definition ROLE_MGMT :: pyval where "ROLE_MGMT = PStr ''management''"
definition ROLE_COMPUTE :: pyval where "ROLE_COMPUTE = PStr ''compute''"

text \<open>
  The module's mutable globals and the files of the control host make up the state the
  functions of the script run in.
\<close>

record world =
  files :: "string \<rightharpoonup> string"
  COMPUTE_OS :: string
  MGMT_OS :: string
  MASTER_NODES :: "pyval \<rightharpoonup> Node"
  POOL_SIZES :: "pyval \<rightharpoonup> nat"
  MANAGEMENT_NODE :: "Node option"

text \<open>The stanza of the PXE interface.\<close>

definition pxe_config :: "Node \<Rightarrow> string \<Rightarrow> exn + string" where
  "pxe_config node config =
    bindE (get_raw_value (pxe_interface node) ''interface'') (\<lambda>pxe_intf.
    bindE (get_raw_value (pxe_interface node) ''inet'') (\<lambda>pxe_inet.
    if pxe_inet \<noteq> PStr ''static'' then
      bindE (py_format ''auto %(pxe_intf)s\<newline>  iface %(pxe_intf)s inet %(inet)s\<newline>  up route add default gw %(pxe_gw)s\<newline>\<newline>''
               [''pxe_intf'' \<mapsto> pxe_intf, ''pxe_gw'' \<mapsto> pxe_gw node, ''inet'' \<mapsto> pxe_inet])
        (\<lambda>t. Inr (config @ t))
    else
      bindE (get_raw_value (pxe_interface node) ''address'') (\<lambda>address.
      bindE (get_raw_value (pxe_interface node) ''netmask'') (\<lambda>netmask.
      bindE (get_raw_value (pxe_interface node) ''dns-nameservers'') (\<lambda>dns.
      bindE (py_format ''auto %(pxe_intf)s\<newline>  iface %(pxe_intf)s inet %(inet)s\<newline>  address %(address)s\<newline>  netmask %(netmask)s\<newline>  dns-nameservers %(dns)s\<newline>  up route add default gw %(pxe_gw)s\<newline>\<newline>''
               [''pxe_intf'' \<mapsto> pxe_intf, ''pxe_gw'' \<mapsto> pxe_gw node, ''inet'' \<mapsto> pxe_inet,
                ''address'' \<mapsto> address, ''netmask'' \<mapsto> netmask, ''dns'' \<mapsto> dns])
        (\<lambda>t. Inr (config @ t)))))))"

text \<open>\<^verbatim>\<open>for intf in node.bond_interfaces\<close>\<close>

fun bond_members_config :: "Node \<Rightarrow> pyval list \<Rightarrow> string \<Rightarrow> exn + string" where
  "bond_members_config node [] config = Inr config"
| "bond_members_config node (intf # intfs) config =
    bindE (py_format ''auto %(intf)s\<newline>  iface %(intf)s inet manual\<newline>  bond-master %(bond)s\<newline>\<newline>''
             [''intf'' \<mapsto> intf, ''bond'' \<mapsto> bond_name node])
      (\<lambda>t. bond_members_config node intfs (config @ t))"

text \<open>The branch \<^verbatim>\<open>if node.role == ROLE_MGMT\<close>.\<close>

definition mgmt_bond_config :: "Node \<Rightarrow> string \<Rightarrow> exn + string" where
  "mgmt_bond_config node config =
    (case management_bond node of
       None \<Rightarrow> Inl (AttributeError ''management_bond'')
     | Some mgmt_bond \<Rightarrow>
    bindE (get_raw_value mgmt_bond ''vlan'') (\<lambda>vlan.
    bindE (get_raw_value mgmt_bond ''inet'') (\<lambda>inet.
    bindE (if py_truthy vlan
           then bindE (py_format ''auto %(bond)s\<newline>  iface %(bond)s inet manual\<newline>  bond-mode 0\<newline>  bond-slaves none\<newline>  bond-updelay 15000\<newline>  bond-miimon 50\<newline>\<newline>''
                         [''bond'' \<mapsto> bond_name node])
                  (\<lambda>t. Inr (config @ t))
           else Inr config) (\<lambda>config1.
    bindE (if inet = PStr ''static''
           then bindE (get_raw_value mgmt_bond ''address'') (\<lambda>address.
                bindE (get_raw_value mgmt_bond ''netmask'') (\<lambda>netmask.
                Inr (address, netmask)))
           else Inr (PNone, PNone)) (\<lambda>(address, netmask).
    bindE (if py_truthy vlan \<and> inet \<noteq> PStr ''static'' then
             py_format ''auto %(bond)s.%(vlan)s\<newline>  iface %(bond)s.%(vlan)s inet %(inet)s\<newline>  vlan-raw-device %(bond)s\<newline>\<newline>''
               [''vlan'' \<mapsto> vlan, ''bond'' \<mapsto> bond_name node, ''inet'' \<mapsto> inet]
           else if py_truthy vlan \<and> inet = PStr ''static'' then
             py_format ''auto %(bond)s.%(vlan)s\<newline>  iface %(bond)s.%(vlan)s inet %(inet)s\<newline>  vlan-raw-device %(bond)s\<newline>  address %(address)s\<newline>  netmask %(netmask)s\<newline>\<newline>''
               [''vlan'' \<mapsto> vlan, ''bond'' \<mapsto> bond_name node, ''inet'' \<mapsto> inet,
                ''address'' \<mapsto> address, ''netmask'' \<mapsto> netmask]
           else if \<not> py_truthy vlan \<and> inet \<noteq> PStr ''static'' then
             py_format ''auto %(bond)s\<newline>  iface %(bond)s inet %(inet)s\<newline>  bond-mode 0\<newline>  bond-slaves none\<newline>  bond-updelay 15000\<newline>  bond-miimon 50\<newline>\<newline>''
               [''bond'' \<mapsto> bond_name node, ''inet'' \<mapsto> inet]
           else if \<not> py_truthy vlan \<and> inet = PStr ''static'' then
             py_format ''auto %(bond)s\<newline>  iface %(bond)s inet %(inet)s\<newline>  address %(address)s\<newline>  netmask %(netmask)s\<newline>  bond-mode 0\<newline>  bond-slaves none\<newline>  bond-updelay 15000\<newline>  bond-miimon 50\<newline>\<newline>''
               [''bond'' \<mapsto> bond_name node, ''inet'' \<mapsto> inet,
                ''address'' \<mapsto> address, ''netmask'' \<mapsto> netmask]
           else Inr [])
      (\<lambda>t. Inr (config1 @ t)))))))"

text \<open>\<^verbatim>\<open>address = ""; if 'address' in bridge.keys(): address = get_raw_value(bridge, 'address')\<close>\<close>

definition optional_value :: "dict \<Rightarrow> string \<Rightarrow> exn + pyval" where
  "optional_value bridge key =
     (if bridge key \<noteq> None then get_raw_value bridge key else Inr (PStr []))"

text \<open>The body of \<^verbatim>\<open>for bridge in node.bridges\<close>.\<close>

definition bridge_config :: "Node \<Rightarrow> dict \<Rightarrow> string \<Rightarrow> exn + string" where
  "bridge_config node bridge config =
    bindE (get_raw_value bridge ''name'') (\<lambda>name.
    bindE (get_raw_value bridge ''vlan'') (\<lambda>vlan.
    bindE (get_raw_value bridge ''inet'') (\<lambda>inet.
    bindE (optional_value bridge ''address'') (\<lambda>address.
    bindE (optional_value bridge ''netmask'') (\<lambda>netmask.
    bindE (optional_value bridge ''gateway'') (\<lambda>gateway.
    bindE (if py_truthy vlan
           then bindE (py_format ''%(bond)s.%(vlan)s''
                         [''vlan'' \<mapsto> vlan, ''bond'' \<mapsto> bond_name node]) (\<lambda>port_name.
                bindE (py_format ''auto %(port_name)s\<newline>  iface %(port_name)s inet manual\<newline>  vlan-raw-device %(bond)s\<newline>\<newline>''
                         [''port_name'' \<mapsto> PStr port_name, ''bond'' \<mapsto> bond_name node])
                  (\<lambda>t. Inr (PStr port_name, config @ t)))
           else Inr (bond_name node, config)) (\<lambda>(port_name, config1).
    if role node = ROLE_COMPUTE \<and> inet \<noteq> PStr ''static'' then
      bindE (py_format ''auto %(name)s\<newline>  iface %(name)s inet %(inet)s\<newline>  bridge_ports %(port_name)s\<newline>  bridge_stp off\<newline>  up /sbin/ifconfig $IFACE up || /bin/true\<newline>\<newline>''
               [''name'' \<mapsto> name, ''port_name'' \<mapsto> port_name, ''inet'' \<mapsto> inet])
        (\<lambda>t. Inr (config1 @ t))
    else if role node = ROLE_COMPUTE \<and> inet = PStr ''static'' then
      bindE (py_format ''auto %(name)s\<newline>  iface %(name)s inet %(inet)s\<newline>  address %(address)s\<newline>  netmask %(netmask)s\<newline>  gateway %(gateway)s\<newline>  bridge_ports %(port_name)s\<newline>  bridge_stp off\<newline>  up /sbin/ifconfig $IFACE up || /bin/true\<newline>\<newline>''
               [''name'' \<mapsto> name, ''port_name'' \<mapsto> port_name, ''inet'' \<mapsto> inet,
                ''address'' \<mapsto> address, ''netmask'' \<mapsto> netmask, ''gateway'' \<mapsto> gateway])
        (\<lambda>t. Inr (config1 @ t))
    else Inr config1)))))))"

fun bridges_config :: "Node \<Rightarrow> dict list \<Rightarrow> string \<Rightarrow> exn + string" where
  "bridges_config node [] config = Inr config"
| "bridges_config node (bridge # rest) config =
     bindE (bridge_config node bridge config) (bridges_config node rest)"

text \<open>The text that \<^verbatim>\<open>generate_interface_config\<close> builds in its variable \<^verbatim>\<open>config\<close>.\<close>

definition interface_config :: "Node \<Rightarrow> exn + string" where
  "interface_config node =
    bindE (pxe_config node ''auto lo\<newline>  iface lo inet loopback\<newline>\<newline>'') (\<lambda>config1.
    bindE (bond_members_config node (bond_interfaces node) config1) (\<lambda>config2.
    if role node = ROLE_MGMT then mgmt_bond_config node config2
    else
      bindE (py_format ''auto %(bond)s\<newline>  iface %(bond)s inet manual\<newline>  bond-mode 0\<newline>  bond-slaves none\<newline>  bond-updelay 15000\<newline>  bond-miimon 50\<newline>\<newline>''
               [''bond'' \<mapsto> bond_name node]) (\<lambda>t.
      case bridges node of
        None \<Rightarrow> Inl (TypeError (CHR 0x27 # ''NoneType' object is not iterable''))
      | Some bs \<Rightarrow> bridges_config node bs (config2 @ t))))"

text \<open>\<^verbatim>\<open>generate_interface_config(node)\<close> writes the text to
  \<^verbatim>\<open>'/tmp/%s.intf' % node.hostname\<close> on the control host.\<close>

definition intf_path :: "Node \<Rightarrow> string" where
  "intf_path node = ''/tmp/'' @ py_str (hostname node) @ ''.intf''"

definition generate_interface_config :: "Node \<Rightarrow> world \<Rightarrow> exn + world" where
  "generate_interface_config node w =
     bindE (interface_config node)
       (\<lambda>config. Inr (w\<lparr>files := (files w)(intf_path node \<mapsto> config)\<rparr>))"

text \<open>A compute node with one bridge on a tagged VLAN, for the examples.\<close>

definition example_bridge :: dict where
  "example_bridge = [''name'' \<mapsto> One (PStr ''br0''), ''vlan'' \<mapsto> One (PInt 12),
                     ''inet'' \<mapsto> One (PStr ''static''),
                     ''address'' \<mapsto> Many [PStr ''10.1.0.2'']]"

definition example_compute_node :: Node where
  "example_compute_node =
     \<lparr>hostname = PStr ''10.0.0.2'', host_name_label = PStr [], pxe_gw = PStr ''10.0.0.1'',
      node_username = PStr ''root'', node_password = PStr ''bsn'', role = PStr ''compute'',
      mysql_root_pwd = PStr [], cloud_db_pwd = PStr [], bond_name = PStr ''bond0'',
      bond_interfaces = [PStr ''eth1'', PStr ''eth2''],
      pxe_interface = [''interface'' \<mapsto> One (PStr ''eth0''), ''inet'' \<mapsto> One (PStr ''dhcp'')],
      xenserver_pool = PNone, management_bond = None,
      bridges = Some [example_bridge]\<rparr>"


section \<open>cloudstack/big_patch.py: generate_command_for_node\<close>

text \<open>
  \<^verbatim>\<open>','.join(xs)\<close> raises TypeError at the first item that is not a string;
  the conversion \<^verbatim>\<open>%d\<close> takes an integer or a boolean and raises TypeError otherwise.
\<close>

fun join_items :: "nat \<Rightarrow> pyval list \<Rightarrow> exn + string list" where
  "join_items i [] = Inr []"
| "join_items i (PStr s # xs) = bindE (join_items (i + 1) xs) (\<lambda>rest. Inr (s # rest))"
| "join_items i (v # xs) =
     Inl (TypeError (''sequence item '' @ str_nat i @ '': expected string, ''
                     @ type_name v @ '' found''))"

fun intersperse :: "string \<Rightarrow> string list \<Rightarrow> string" where
  "intersperse sep [] = []"
| "intersperse sep [s] = s"
| "intersperse sep (s # t # rest) = s @ sep @ intersperse sep (t # rest)"

definition py_join :: "string \<Rightarrow> pyval list \<Rightarrow> exn + string" where
  "py_join sep xs = bindE (join_items 0 xs) (\<lambda>ss. Inr (intersperse sep ss))"

definition fmt_d :: "pyval \<Rightarrow> exn + string" where
  "fmt_d v = (case v of
      PInt i \<Rightarrow> Inr (str_int i)
    | PBool b \<Rightarrow> Inr (if b then ''1'' else ''0'')
    | _ \<Rightarrow> Inl (TypeError (''%d format: a number is required, not '' @ type_name v)))"

text \<open>
  \<^verbatim>\<open>generate_command_for_node(node)\<close> writes the scripts of a node to \<^verbatim>\<open>/tmp\<close>. The
  texts it writes are not kept here: the model is the sequence, in the order of the
  source, of the evaluations that can raise, and its result is the exception raised, if
  there is one. Every conversion in the templates it formats is \<^verbatim>\<open>%(key)s\<close> with a key
  that the dict given holds, which accepts every value, except \<^verbatim>\<open>%(vlan)d\<close> in the
  CentOS templates of a tagged bond and \<^verbatim>\<open>%(intf_count)d\<close>, which is given a length.
  Every \<^verbatim>\<open>open()\<close> is taken to succeed.

  The function has four \<^verbatim>\<open>if\<close> blocks in a row. The first (lines 1751 to 1884) is
  taken when the compute OS is Ubuntu or the node is an Ubuntu management node; the local
  variable \<^verbatim>\<open>bond_intfs\<close> is assigned in this block only.
\<close>

text \<open>The body of \<^verbatim>\<open>for bridge in node.bridges\<close> at line 1809.\<close>

definition remote_bridge_values :: "dict \<Rightarrow> exn + unit" where
  "remote_bridge_values bridge =
    bindE (get_raw_value bridge ''name'') (\<lambda>name.
    bindE (get_raw_value bridge ''vlan'') (\<lambda>vlan.
    bindE (get_raw_value bridge ''inet'') (\<lambda>inet.
    bindE (optional_value bridge ''address'') (\<lambda>address.
    bindE (optional_value bridge ''netmask'') (\<lambda>netmask.
    bindE (optional_value bridge ''gateway'') (\<lambda>gateway. Inr ()))))))"

text \<open>\<^verbatim>\<open>if node.bridges: for bridge in node.bridges\<close>: no bridge when the attribute is
  \<^verbatim>\<open>None\<close> or an empty list.\<close>

definition bridges_of :: "Node \<Rightarrow> dict list" where
  "bridges_of node = (case bridges node of None \<Rightarrow> [] | Some bs \<Rightarrow> bs)"

text \<open>Lines 1837 to 1845.\<close>

definition pxe_values :: "Node \<Rightarrow> exn + unit" where
  "pxe_values node =
    bindE (get_raw_value (pxe_interface node) ''interface'') (\<lambda>pxe_intf.
    bindE (get_raw_value (pxe_interface node) ''inet'') (\<lambda>pxe_inet.
    if pxe_inet = PStr ''static'' then
      bindE (get_raw_value (pxe_interface node) ''address'') (\<lambda>pxe_address.
      bindE (get_raw_value (pxe_interface node) ''netmask'') (\<lambda>pxe_netmask.
      bindE (get_raw_value (pxe_interface node) ''dns-nameservers'') (\<lambda>pxe_dns. Inr ())))
    else Inr ()))"

text \<open>The first block; its value is the text of \<^verbatim>\<open>bond_intfs\<close>.\<close>

definition ubuntu_scripts :: "Node \<Rightarrow> world \<Rightarrow> exn + string" where
  "ubuntu_scripts node w =
    bindE (generate_interface_config node w) (\<lambda>w1.
    bindE (py_join '','' (bond_interfaces node)) (\<lambda>intfs.
    bindE (for_each remote_bridge_values (bridges_of node)) (\<lambda>u.
    bindE (pxe_values node) (\<lambda>u.
    Inr (''('' @ concat (map (\<lambda>i. CHR 0x22 # py_str i @ [CHR 0x22, CHR '' ''])
                           (bond_interfaces node)) @ '')'')))))"

text \<open>The second block (lines 1886 to 2000), for a CentOS management node.\<close>

definition centos_management_scripts :: "Node \<Rightarrow> exn + unit" where
  "centos_management_scripts node =
    (case management_bond node of
       None \<Rightarrow> Inl (AttributeError ''management_bond'')
     | Some mgmt_bond \<Rightarrow>
    bindE (get_raw_value mgmt_bond ''vlan'') (\<lambda>vlan.
    bindE (get_raw_value mgmt_bond ''inet'') (\<lambda>inet.
    bindE (if inet = PStr ''static''
           then bindE (get_raw_value mgmt_bond ''address'') (\<lambda>address.
                bindE (get_raw_value mgmt_bond ''network'') (\<lambda>network.
                bindE (get_raw_value mgmt_bond ''netmask'') (\<lambda>netmask. Inr ())))
           else Inr ()) (\<lambda>u.
    bindE (if py_truthy vlan \<and> (inet = PStr ''dhcp'' \<or> inet = PStr ''static'')
           then fmt_d vlan else Inr []) (\<lambda>tagged.
    bindE (py_join '','' (bond_interfaces node)) (\<lambda>intfs. Inr ()))))))"

text \<open>The third block (lines 2002 to 2111), for a compute node under CentOS; first the
  body of its loop over the bridges.\<close>

definition centos_bridge_files :: "dict \<Rightarrow> exn + unit" where
  "centos_bridge_files bridge =
    bindE (get_raw_value bridge ''name'') (\<lambda>name.
    bindE (get_raw_value bridge ''vlan'') (\<lambda>vlan.
    bindE (get_raw_value bridge ''inet'') (\<lambda>inet.
    bindE (optional_value bridge ''address'') (\<lambda>address.
    bindE (optional_value bridge ''network'') (\<lambda>network.
    bindE (optional_value bridge ''netmask'') (\<lambda>netmask.
    bindE (optional_value bridge ''gateway'') (\<lambda>gateway.
    bindE (if py_truthy vlan then fmt_d vlan else Inr []) (\<lambda>tagged. Inr ()))))))))"

definition centos_compute_scripts :: "Node \<Rightarrow> exn + unit" where
  "centos_compute_scripts node =
    bindE (for_each centos_bridge_files (bridges_of node)) (\<lambda>u.
    bindE (py_join '','' (bond_interfaces node)) (\<lambda>intfs. Inr ()))"

text \<open>
  The fourth block (lines 2113 to 2143), for a compute node under XenServer. For a node
  that is not the master of its pool it formats \<^verbatim>\<open>XEN_SLAVE\<close> with the local variable
  \<^verbatim>\<open>bond_intfs\<close>, which is unbound unless the first block has run.
\<close>

definition xenserver_scripts :: "Node \<Rightarrow> world \<Rightarrow> string option \<Rightarrow> exn + unit" where
  "xenserver_scripts node w bond_intfs =
    (case MASTER_NODES w (dict_key (xenserver_pool node)) of
       None \<Rightarrow> Inl (KeyError (py_str (xenserver_pool node)))
     | Some master \<Rightarrow>
         if \<not> py_eq (hostname master) (hostname node)
         then (case bond_intfs of
                 None \<Rightarrow> Inl (UnboundLocalError ''bond_intfs'')
               | Some text \<Rightarrow> Inr ())
         else Inr ())"

definition generate_command_for_node :: "Node \<Rightarrow> world \<Rightarrow> exn + unit" where
  "generate_command_for_node node w =
    bindE (if COMPUTE_OS w = ''ubuntu''
              \<or> (role node = PStr ''management'' \<and> MGMT_OS w = ''ubuntu'')
           then bindE (ubuntu_scripts node w) (\<lambda>text. Inr (Some text))
           else Inr None) (\<lambda>bond_intfs.
    bindE (if role node = PStr ''management'' \<and> MGMT_OS w = ''centos''
           then centos_management_scripts node else Inr ()) (\<lambda>u.
    bindE (if role node = PStr ''compute'' \<and> COMPUTE_OS w = ''centos''
           then centos_compute_scripts node else Inr ()) (\<lambda>u.
    if COMPUTE_OS w = ''xenserver'' \<and> role node = PStr ''compute''
    then xenserver_scripts node w bond_intfs else Inr ())))"
section \<open>openstack/big_patch.py: ConfigDeployer.deploy_to_all\<close>

text \<open>
  \<^verbatim>\<open>deploy_to_all\<close> starts one thread per node of \<^verbatim>\<open>self.env.nodes\<close>, each running
  \<^verbatim>\<open>deploy_to_node_catch_errors\<close>, and joins the oldest thread of its deque whenever the
  deque holds \<^verbatim>\<open>MAX_THREADS\<close> threads. The threads run concurrently with the main
  thread: the model is a transition system whose actions are a step of the main thread
  and the end of a worker thread, in any interleaving.

  What \<^verbatim>\<open>deploy_to_node\<close> does on the remote node is outside the model. Its effect on the
  shared lists is given per thread by \<open>behaviour\<close>: the call returns, having appended the
  node's neutron connection string to \<^verbatim>\<open>node_information\<close> or not, or it raises an
  exception \<open>e\<close> with \<^verbatim>\<open>str(e)\<close> the given message, which
  \<^verbatim>\<open>deploy_to_node_catch_errors\<close> catches (\<^verbatim>\<open>except Exception\<close>) and appends to the
  error list with the node.
\<close>

definition MAX_THREADS :: nat where "MAX_THREADS = 20"

datatype result = Succeeds "string option" | Raises string

datatype dpc = Loop | JoinTop nat | Drain "nat list" | Done

record deployer =
  d_pc :: dpc
  d_todo :: "string list"
  d_started :: nat
  thread_list :: "nat list"
  d_alive :: "(nat \<times> string) list"
  d_ended :: "nat list"
  errors :: "(string \<times> string) list"
  node_information :: "(string \<times> string) list"
  printed :: "string list"

text \<open>The state at the entry of \<^verbatim>\<open>deploy_to_all\<close>: the loop has all of
  \<^verbatim>\<open>self.env.nodes\<close> before it. Threads are numbered in the order of their creation.\<close>

definition deploy_to_all_init :: "string list \<Rightarrow> deployer" where
  "deploy_to_all_init nodes =
     \<lparr>d_pc = Loop, d_todo = nodes, d_started = 0, thread_list = [], d_alive = [],
      d_ended = [], errors = [], node_information = [], printed = []\<rparr>"

text \<open>\<^verbatim>\<open>sep.join(xs)\<close>\<close>

fun join :: "string \<Rightarrow> string list \<Rightarrow> string" where
  "join sep [] = []"
| "join sep [x] = x"
| "join sep (x # y # ys) = x @ sep @ join sep (y # ys)"

text \<open>What \<^verbatim>\<open>deploy_to_all\<close> prints once every thread is joined.\<close>

definition error_line :: "string \<times> string \<Rightarrow> string" where
  "error_line ne = ''Error on node '' @ fst ne @ '':\<newline>'' @ snd ne"

definition report :: "(string \<times> string) list \<Rightarrow> (string \<times> string) list \<Rightarrow> string list" where
  "report errs infos =
    (let conn_strings = map snd infos
     in (if length (remdups conn_strings) > 1
         then [''Warning: different neutron connection strings detected on neutron server nodes. They should all reference the same database.\<newline>Connections:\<newline>''
               @ join ''\<newline>'' (map (\<lambda>ni. fst ni @ '': '' @ snd ni) infos)]
         else [])
        @ (if errs \<noteq> []
           then ''Encountered errors while deploying patch to nodes.'' # map error_line errs
           else [''Deployment Complete!'']))"

datatype act = MainStep | ThreadEnd nat

text \<open>
  A step of the main thread. In the loop it creates the thread of the next node, appends
  it to the deque and starts it, and pops the oldest thread when the deque has reached
  \<^verbatim>\<open>MAX_THREADS\<close>. A \<^verbatim>\<open>join\<close> is enabled only when its thread has ended. After the last
  join the report is printed.
\<close>

definition main_step :: "deployer \<Rightarrow> deployer option" where
  "main_step s =
    (case d_pc s of
       Loop \<Rightarrow>
        (case d_todo s of
           [] \<Rightarrow> Some (s\<lparr>d_pc := Drain (thread_list s)\<rparr>)
         | node # rest \<Rightarrow>
            (let t = d_started s;
                 s1 = s\<lparr>d_todo := rest, d_started := t + 1,
                        thread_list := thread_list s @ [t],
                        d_alive := d_alive s @ [(t, node)]\<rparr>
             in if length (thread_list s1) \<ge> MAX_THREADS
                then Some (s1\<lparr>d_pc := JoinTop (hd (thread_list s1)),
                               thread_list := tl (thread_list s1)\<rparr>)
                else Some s1))
     | JoinTop oldest \<Rightarrow>
        (if oldest \<in> fst ` set (d_alive s) then None else Some (s\<lparr>d_pc := Loop\<rparr>))
     | Drain [] \<Rightarrow>
        Some (s\<lparr>d_pc := Done, printed := printed s @ report (errors s) (node_information s)\<rparr>)
     | Drain (t # rest) \<Rightarrow>
        (if t \<in> fst ` set (d_alive s) then None else Some (s\<lparr>d_pc := Drain rest\<rparr>))
     | Done \<Rightarrow> None)"

text \<open>The end of thread \<open>i\<close>: \<^verbatim>\<open>deploy_to_node_catch_errors\<close> returns, after the append
  that \<open>behaviour i\<close> stands for.\<close>

definition thread_end :: "(nat \<Rightarrow> result) \<Rightarrow> nat \<Rightarrow> deployer \<Rightarrow> deployer option" where
  "thread_end behaviour i s =
    (case map_of (d_alive s) i of
       None \<Rightarrow> None
     | Some node \<Rightarrow>
        (let s1 = s\<lparr>d_alive := filter (\<lambda>jn. fst jn \<noteq> i) (d_alive s),
                      d_ended := d_ended s @ [i]\<rparr>
         in case behaviour i of
              Raises msg \<Rightarrow> Some (s1\<lparr>errors := errors s1 @ [(node, msg)]\<rparr>)
            | Succeeds (Some conn) \<Rightarrow>
                Some (s1\<lparr>node_information := node_information s1 @ [(node, conn)]\<rparr>)
            | Succeeds None \<Rightarrow> Some s1))"

fun dstep :: "(nat \<Rightarrow> result) \<Rightarrow> deployer \<Rightarrow> act \<Rightarrow> deployer option" where
  "dstep behaviour s MainStep = main_step s"
| "dstep behaviour s (ThreadEnd i) = thread_end behaviour i s"

text \<open>A schedule is a list of actions; it runs as long as each action is enabled.\<close>

fun dexec :: "(nat \<Rightarrow> result) \<Rightarrow> act list \<Rightarrow> deployer \<Rightarrow> deployer option" where
  "dexec behaviour [] s = Some s"
| "dexec behaviour (a # as) s =
     (case dstep behaviour s a of None \<Rightarrow> None | Some s' \<Rightarrow> dexec behaviour as s')"

text \<open>The failures of a run, in the order of the nodes: the pairs of a node whose
  thread raises and the message.\<close>

definition failure_of :: "(nat \<Rightarrow> result) \<Rightarrow> string list \<Rightarrow> nat \<Rightarrow> (string \<times> string) list" where
  "failure_of behaviour nodes i =
     (case behaviour i of Raises msg \<Rightarrow> [(nodes ! i, msg)] | Succeeds c \<Rightarrow> [])"


text \<open>Invariants of the transition system. Thread numbers: the threads created so far
  are \<open>0, \<dots>, d_started - 1\<close>, each alive or ended, and an alive thread works on the node
  of its number.\<close>

definition inv_ids :: "string list \<Rightarrow> deployer \<Rightarrow> bool" where
  "inv_ids nodes s \<longleftrightarrow>
     d_started s \<le> length nodes \<and> d_todo s = drop (d_started s) nodes
     \<and> distinct (map fst (d_alive s)) \<and> distinct (d_ended s)
     \<and> fst ` set (d_alive s) \<union> set (d_ended s) = {0..<d_started s}
     \<and> fst ` set (d_alive s) \<inter> set (d_ended s) = {}
     \<and> (\<forall>jn \<in> set (d_alive s). snd jn = nodes ! fst jn)"

text \<open>The error list holds the failures of the ended threads, in the order of ending.\<close>

definition inv_errors :: "(nat \<Rightarrow> result) \<Rightarrow> string list \<Rightarrow> deployer \<Rightarrow> bool" where
  "inv_errors behaviour nodes s \<longleftrightarrow>
     errors s = concat (map (failure_of behaviour nodes) (d_ended s))"

text \<open>Every alive thread is one the main thread has still to join.\<close>

definition inv_pc :: "deployer \<Rightarrow> bool" where
  "inv_pc s \<longleftrightarrow>
     (case d_pc s of
        Loop \<Rightarrow> fst ` set (d_alive s) \<subseteq> set (thread_list s)
                 \<and> length (thread_list s) < MAX_THREADS \<and> printed s = []
      | JoinTop oldest \<Rightarrow> fst ` set (d_alive s) \<subseteq> insert oldest (set (thread_list s))
                 \<and> length (thread_list s) < MAX_THREADS \<and> printed s = []
      | Drain js \<Rightarrow> fst ` set (d_alive s) \<subseteq> set js \<and> length js < MAX_THREADS
                 \<and> d_todo s = [] \<and> printed s = []
      | Done \<Rightarrow> d_alive s = [] \<and> d_todo s = []
                 \<and> printed s = report (errors s) (node_information s))"

definition dinv :: "(nat \<Rightarrow> result) \<Rightarrow> string list \<Rightarrow> deployer \<Rightarrow> bool" where
  "dinv behaviour nodes s \<longleftrightarrow> inv_ids nodes s \<and> inv_errors behaviour nodes s \<and> inv_pc s"



section \<open>cloudstack/big_patch.py: deploy_to_all\<close>

text \<open>
  The phases that have a queue, in the order of the steps 1 to 7 of \<^verbatim>\<open>deploy_to_all\<close>:
  \<^verbatim>\<open>node_q\<close>, \<^verbatim>\<open>xen_slave_node_q\<close>, \<^verbatim>\<open>xen_master_node_q\<close>, \<^verbatim>\<open>node_mgmtintf_q\<close>,
  \<^verbatim>\<open>xen_master_node_reboot_q\<close>, \<^verbatim>\<open>xen_slave_node_reboot_q\<close> and \<^verbatim>\<open>xen_check_bond_q\<close>.
  The set-up of the management node (step 0) and its reboot have a thread each and no
  queue.
\<close>

datatype phase =
  SetupBase | JoinCluster | AssignIp | ChangeMgmtIntf | RebootMaster | RebootSlave | CheckBond

fun phase_no :: "phase \<Rightarrow> nat" where
  "phase_no SetupBase = 1"
| "phase_no JoinCluster = 2"
| "phase_no AssignIp = 3"
| "phase_no ChangeMgmtIntf = 4"
| "phase_no RebootMaster = 5"
| "phase_no RebootSlave = 6"
| "phase_no CheckBond = 7"

definition MAX_WORKERS :: nat where "MAX_WORKERS = 10"

definition CS_COMMON :: string where "CS_COMMON = ''cloudstack-common_4.5.0-snapshot_all.deb''"
definition CS_MGMT :: string where "CS_MGMT = ''cloudstack-management_4.5.0-snapshot_all.deb''"
definition CS_AGENT :: string where "CS_AGENT = ''cloudstack-agent_4.5.0-snapshot_all.deb''"
definition CS_COMMON_RPM :: string where
  "CS_COMMON_RPM = ''cloudstack-common-4.5.0-SNAPSHOT.el6.x86_64.rpm''"
definition CS_MGMT_RPM :: string where
  "CS_MGMT_RPM = ''cloudstack-management-4.5.0-SNAPSHOT.el6.x86_64.rpm''"
definition CS_AWSAPI_RPM :: string where
  "CS_AWSAPI_RPM = ''cloudstack-awsapi-4.5.0-SNAPSHOT.el6.x86_64.rpm''"
definition CS_AGENT_RPM :: string where
  "CS_AGENT_RPM = ''cloudstack-agent-4.5.0-SNAPSHOT.el6.x86_64.rpm''"

text \<open>
  The state of a run. A \<^verbatim>\<open>Queue.Queue\<close> is the list of its items and its counter
  \<^verbatim>\<open>unfinished_tasks\<close>, which \<^verbatim>\<open>put\<close> increments, \<^verbatim>\<open>task_done\<close> decrements and
  \<^verbatim>\<open>join\<close> waits to be zero. A worker thread is the phase whose queue it reads and the
  node it is working on, \<open>None\<close> when it is in \<^verbatim>\<open>get()\<close>. The lists \<open>begun\<close> and
  \<open>completed\<close> record, per phase, the nodes whose work has started and has finished;
  the code does not read them.
\<close>

datatype tstate = NotStarted | Running | Ended

text \<open>
  Where the main thread is: before step 0, spawning the \<open>k\<close>-th worker of a phase, in
  the \<^verbatim>\<open>join\<close> of a queue or of a thread, returned at the end, returned from a guard
  (\<open>Refused\<close>), or left by an exception that was raised in the loop over the nodes
  (\<open>Raised\<close>).
\<close>

datatype cpc =
    Start | Spawn phase nat | Join phase | JoinManagement | JoinReboot | Returned | Refused
  | Raised exn

record orchestrator =
  c_pc :: cpc
  globals :: world
  queue :: "phase \<Rightarrow> Node list"
  unfinished_tasks :: "phase \<Rightarrow> nat"
  workers :: "(phase \<times> Node option) list"
  management_node_thread :: tstate
  reboot_thread :: tstate
  begun :: "phase \<Rightarrow> Node list"
  completed :: "phase \<Rightarrow> Node list"
  messages :: "string list"

text \<open>\<^verbatim>\<open>q.put(node)\<close>\<close>

definition put :: "phase \<Rightarrow> Node \<Rightarrow> orchestrator \<Rightarrow> orchestrator" where
  "put p node s =
     s\<lparr>queue := (queue s)(p := queue s p @ [node]),
       unfinished_tasks := (unfinished_tasks s)(p := unfinished_tasks s p + 1)\<rparr>"

text \<open>An exception leaves \<^verbatim>\<open>deploy_to_all\<close>: the state stays as it is, and the main
  thread is gone.\<close>

definition raise_in :: "exn \<Rightarrow> orchestrator \<Rightarrow> orchestrator" where
  "raise_in e s = s\<lparr>c_pc := Raised e\<rparr>"

definition raised :: "orchestrator \<Rightarrow> bool" where
  "raised s = (case c_pc s of Raised e \<Rightarrow> True | _ \<Rightarrow> False)"

text \<open>The bodies of the loops over \<^verbatim>\<open>node.bridges\<close> for the master of a pool (lines 2320
  to 2326) and for another member of it (lines 2338 to 2350): the values they read.\<close>

definition master_bridge_values :: "dict \<Rightarrow> exn + unit" where
  "master_bridge_values bridge =
    bindE (get_raw_value bridge ''vlan'') (\<lambda>vlan.
    bindE (get_raw_value bridge ''inet'') (\<lambda>inet. Inr ()))"

definition slave_bridge_values :: "dict \<Rightarrow> exn + unit" where
  "slave_bridge_values bridge =
    bindE (optional_value bridge ''address'') (\<lambda>address.
    bindE (optional_value bridge ''netmask'') (\<lambda>netmask.
    bindE (optional_value bridge ''gateway'') (\<lambda>gateway. Inr ())))"

text \<open>
  The body of \<^verbatim>\<open>for node_config in config['nodes']\<close>, for the node built from the
  entry: what it does to the globals and to the queues, in the order of the source, and
  the exception that ends it, if one is raised. A management node becomes
  \<^verbatim>\<open>MANAGEMENT_NODE\<close>; any other node is put on the queues of the steps 1, 4 and 7. Under
  XenServer the first compute node of a pool becomes its master and is put on the queues
  of the steps 3 and 5, every later one is put on the queues of the steps 2 and 6, each
  after the loop over its bridges. Then \<^verbatim>\<open>generate_command_for_node(node)\<close> is called.
  A pool is a key of the dicts \<^verbatim>\<open>MASTER_NODES\<close> and \<^verbatim>\<open>POOL_SIZES\<close>, held under its
  \<open>dict_key\<close>. The defaults
  that the loop fills in, the construction of the \<^verbatim>\<open>Node\<close> and the files it removes are
  not modelled.
\<close>

definition add_node :: "Node \<Rightarrow> orchestrator \<Rightarrow> orchestrator" where
  "add_node node s =
    (let s1 = (if role node = PStr ''management''
               then s\<lparr>globals := (globals s)\<lparr>MANAGEMENT_NODE := Some node\<rparr>\<rparr>
               else put CheckBond node (put ChangeMgmtIntf node (put SetupBase node s)));
         g = globals s1;
         pool = dict_key (xenserver_pool node);
         s2 = (if COMPUTE_OS g = ''xenserver'' \<and> role node = PStr ''compute''
                  \<and> MASTER_NODES g pool = None
               then (let s3 = s1\<lparr>globals := g\<lparr>MASTER_NODES := (MASTER_NODES g)(pool \<mapsto> node),
                                                   POOL_SIZES := (POOL_SIZES g)(pool \<mapsto> 1)\<rparr>\<rparr>
                     in case for_each master_bridge_values (bridges_of node) of
                          Inl e \<Rightarrow> raise_in e s3
                        | Inr u \<Rightarrow> put RebootMaster node (put AssignIp node s3))
               else if COMPUTE_OS g = ''xenserver'' \<and> role node = PStr ''compute''
               then (let s3 = s1\<lparr>globals := g\<lparr>POOL_SIZES := (POOL_SIZES g)
                           (pool \<mapsto> (case POOL_SIZES g pool of None \<Rightarrow> 1 | Some n \<Rightarrow> n) + 1)\<rparr>\<rparr>
                     in case for_each slave_bridge_values (bridges_of node) of
                          Inl e \<Rightarrow> raise_in e s3
                        | Inr u \<Rightarrow> put RebootSlave node (put JoinCluster node s3))
               else s1)
     in if raised s2 then s2
        else case generate_command_for_node node (globals s2) of
               Inl e \<Rightarrow> raise_in e s2
             | Inr u \<Rightarrow> s2)"

text \<open>The loop: an exception ends it.\<close>

fun add_nodes :: "Node list \<Rightarrow> orchestrator \<Rightarrow> orchestrator" where
  "add_nodes [] s = s"
| "add_nodes (node # nodes) s =
     (if raised (add_node node s) then add_node node s
      else add_nodes nodes (add_node node s))"

text \<open>\<^verbatim>\<open>os.path.isfile("/tmp/%s" % name)\<close>\<close>

definition isfile_tmp :: "world \<Rightarrow> string \<Rightarrow> bool" where
  "isfile_tmp w name \<longleftrightarrow> files w (''/tmp/'' @ name) \<noteq> None"

text \<open>The five guards before step 0, in the order of the source; the result is the
  message of the first guard that fires.\<close>

definition missing_package :: "orchestrator \<Rightarrow> string option" where
  "missing_package s =
    (let g = globals s in
     if (MANAGEMENT_NODE g \<noteq> None \<or> COMPUTE_OS g \<noteq> ''xenserver'')
        \<and> \<not> isfile_tmp g CS_COMMON_RPM \<and> \<not> isfile_tmp g CS_COMMON
     then Some ''cloudstack common package is missing\<newline>''
     else if MANAGEMENT_NODE g \<noteq> None \<and> \<not> isfile_tmp g CS_MGMT_RPM \<and> \<not> isfile_tmp g CS_MGMT
     then Some ''cloudstack management package is missing\<newline>''
     else if COMPUTE_OS g = ''ubuntu'' \<and> length (queue s SetupBase) > 0
             \<and> \<not> isfile_tmp g CS_AGENT
     then Some ''cloudstack agent package is missing\<newline>''
     else if COMPUTE_OS g = ''centos'' \<and> length (queue s SetupBase) > 0
             \<and> \<not> isfile_tmp g CS_AGENT_RPM
     then Some ''cloudstack agent package is missing\<newline>''
     else if MGMT_OS g = ''centos'' \<and> MANAGEMENT_NODE g \<noteq> None
             \<and> \<not> isfile_tmp g CS_AWSAPI_RPM
     then Some ''cloudstack awsapi package is missing\<newline>''
     else None)"

text \<open>
  \<^verbatim>\<open>deploy_to_all(config)\<close> up to step 0: the globals are set from the configuration
  (\<^verbatim>\<open>MASTER_NODES\<close>, \<^verbatim>\<open>POOL_SIZES\<close> and \<^verbatim>\<open>MANAGEMENT_NODE\<close> have their values of
  module load), the loop over the nodes runs, and, unless it raised, the guards run. The
  argument \<open>fs\<close> is the content of \<^verbatim>\<open>/tmp\<close> that the guards find. A guard that fires
  prints its message and returns. (The loop over the pools between the two, lines 2356
  to 2375, writes one more script for each master and raises nothing.)
\<close>

definition fresh_run :: "(string \<rightharpoonup> string) \<Rightarrow> string \<Rightarrow> string \<Rightarrow> orchestrator" where
  "fresh_run fs compute_os management_os =
     \<lparr>c_pc = Start,
      globals = \<lparr>files = fs, COMPUTE_OS = compute_os, MGMT_OS = management_os,
                 MASTER_NODES = Map.empty, POOL_SIZES = Map.empty, MANAGEMENT_NODE = None\<rparr>,
      queue = (\<lambda>p. []), unfinished_tasks = (\<lambda>p. 0), workers = [],
      management_node_thread = NotStarted, reboot_thread = NotStarted,
      begun = (\<lambda>p. []), completed = (\<lambda>p. []), messages = []\<rparr>"

definition deploy_to_all_start ::
  "(string \<rightharpoonup> string) \<Rightarrow> string \<Rightarrow> string \<Rightarrow> Node list \<Rightarrow> orchestrator" where
  "deploy_to_all_start fs compute_os management_os nodes =
    (let s = add_nodes nodes (fresh_run fs compute_os management_os)
     in if raised s then s
        else case missing_package s of
               Some msg \<Rightarrow> s\<lparr>c_pc := Refused, messages := messages s @ [msg]\<rparr>
             | None \<Rightarrow> s)"

text \<open>
  The steps of the main thread from step 0 on. A \<^verbatim>\<open>join\<close> on a queue is enabled when
  the queue's \<^verbatim>\<open>unfinished_tasks\<close> is zero, a \<^verbatim>\<open>join\<close> on a thread when the thread has
  ended. After step 1 an Ubuntu or CentOS deployment goes to the end; after step 7 so
  does a XenServer deployment (the \<^verbatim>\<open>time.sleep(60)\<close> after step 5 changes no state). At the end the thread of the management node is joined and
  the management node rebooted, if there is a management node.
\<close>

definition finish :: "orchestrator \<Rightarrow> orchestrator" where
  "finish s =
     (if MANAGEMENT_NODE (globals s) \<noteq> None then s\<lparr>c_pc := JoinManagement\<rparr>
      else s\<lparr>c_pc := Returned\<rparr>)"

fun after_join :: "phase \<Rightarrow> orchestrator \<Rightarrow> orchestrator" where
  "after_join SetupBase s =
     (if COMPUTE_OS (globals s) = ''ubuntu'' \<or> COMPUTE_OS (globals s) = ''centos''
      then finish s else s\<lparr>c_pc := Spawn JoinCluster 0\<rparr>)"
| "after_join JoinCluster s = s\<lparr>c_pc := Spawn AssignIp 0\<rparr>"
| "after_join AssignIp s = s\<lparr>c_pc := Spawn ChangeMgmtIntf 0\<rparr>"
| "after_join ChangeMgmtIntf s = s\<lparr>c_pc := Spawn RebootMaster 0\<rparr>"
| "after_join RebootMaster s = s\<lparr>c_pc := Spawn RebootSlave 0\<rparr>"
| "after_join RebootSlave s = s\<lparr>c_pc := Spawn CheckBond 0\<rparr>"
| "after_join CheckBond s = finish s"

definition cmain :: "orchestrator \<Rightarrow> orchestrator option" where
  "cmain s =
    (case c_pc s of
       Start \<Rightarrow>
         Some (s\<lparr>management_node_thread :=
                    (if MANAGEMENT_NODE (globals s) \<noteq> None then Running else NotStarted),
                 c_pc := Spawn SetupBase 0\<rparr>)
     | Spawn p k \<Rightarrow>
         (if k < MAX_WORKERS
          then Some (s\<lparr>workers := workers s @ [(p, None)], c_pc := Spawn p (k + 1)\<rparr>)
          else Some (s\<lparr>c_pc := Join p\<rparr>))
     | Join p \<Rightarrow> (if unfinished_tasks s p = 0 then Some (after_join p s) else None)
     | JoinManagement \<Rightarrow>
         (if management_node_thread s = Ended
          then Some (s\<lparr>reboot_thread := Running, c_pc := JoinReboot\<rparr>) else None)
     | JoinReboot \<Rightarrow>
         (if reboot_thread s = Ended then Some (s\<lparr>c_pc := Returned\<rparr>) else None)
     | Returned \<Rightarrow> None
     | Refused \<Rightarrow> None
     | Raised e \<Rightarrow> None)"

text \<open>
  The steps of worker \<open>i\<close>, a thread running \<^verbatim>\<open>while True: node = q.get(); \<dots>;
  q.task_done()\<close>: it takes the head of its queue, blocked while the queue is empty, and
  later finishes the node's command and calls \<^verbatim>\<open>task_done\<close>.
\<close>

definition worker_get :: "nat \<Rightarrow> orchestrator \<Rightarrow> orchestrator option" where
  "worker_get i s =
    (if i < length (workers s) then
       (case workers s ! i of
          (p, None) \<Rightarrow>
            (case queue s p of
               [] \<Rightarrow> None
             | node # rest \<Rightarrow>
                 Some (s\<lparr>workers := (workers s)[i := (p, Some node)],
                         queue := (queue s)(p := rest),
                         begun := (begun s)(p := begun s p @ [node])\<rparr>))
        | (p, Some node) \<Rightarrow> None)
     else None)"

definition worker_task_done :: "nat \<Rightarrow> orchestrator \<Rightarrow> orchestrator option" where
  "worker_task_done i s =
    (if i < length (workers s) then
       (case workers s ! i of
          (p, None) \<Rightarrow> None
        | (p, Some node) \<Rightarrow>
            Some (s\<lparr>workers := (workers s)[i := (p, None)],
                    unfinished_tasks := (unfinished_tasks s)(p := unfinished_tasks s p - 1),
                    completed := (completed s)(p := completed s p @ [node])\<rparr>))
     else None)"

datatype cact = Main | Get nat | TaskDone nat | ManagementEnds | RebootEnds

fun cstep :: "orchestrator \<Rightarrow> cact \<Rightarrow> orchestrator option" where
  "cstep s Main = cmain s"
| "cstep s (Get i) = worker_get i s"
| "cstep s (TaskDone i) = worker_task_done i s"
| "cstep s ManagementEnds =
     (if management_node_thread s = Running
      then Some (s\<lparr>management_node_thread := Ended\<rparr>) else None)"
| "cstep s RebootEnds =
     (if reboot_thread s = Running then Some (s\<lparr>reboot_thread := Ended\<rparr>) else None)"

fun cexec :: "cact list \<Rightarrow> orchestrator \<Rightarrow> orchestrator option" where
  "cexec [] s = Some s"
| "cexec (a # as) s = (case cstep s a of None \<Rightarrow> None | Some s' \<Rightarrow> cexec as s')"

text \<open>Nodes for the examples: a management node and a XenServer compute node of a pool.\<close>

definition example_management_node :: Node where
  "example_management_node =
     example_compute_node\<lparr>hostname := PStr ''10.0.0.1'', role := PStr ''management'',
       management_bond := Some [''vlan'' \<mapsto> One PNone, ''inet'' \<mapsto> One (PStr ''dhcp'')],
       bridges := None\<rparr>"

definition example_xen_node :: Node where
  "example_xen_node = example_compute_node\<lparr>xenserver_pool := PStr ''pool1''\<rparr>"

text \<open>The nodes that the workers of a phase are working on, and the invariants of a run
  that started in the state \<open>s0\<close>.\<close>

fun busy_nodes :: "(phase \<times> Node option) list \<Rightarrow> phase \<Rightarrow> Node list" where
  "busy_nodes [] p = []"
| "busy_nodes ((q, None) # ws) p = busy_nodes ws p"
| "busy_nodes ((q, Some node) # ws) p = (if q = p then node # busy_nodes ws p else busy_nodes ws p)"

text \<open>Each queue accounts for its nodes: those not yet taken, those being worked on and
  those completed.\<close>

definition accounted :: "orchestrator \<Rightarrow> orchestrator \<Rightarrow> bool" where
  "accounted s0 s \<longleftrightarrow> globals s = globals s0 \<and>
     (\<forall>p. unfinished_tasks s p = length (queue s p) + length (busy_nodes (workers s) p)
        \<and> begun s p @ queue s p = queue s0 p
        \<and> mset (begun s p) = mset (completed s p) + mset (busy_nodes (workers s) p))"

text \<open>No phase has more than \<^verbatim>\<open>MAX_WORKERS\<close> worker threads.\<close>

definition pool_bounded :: "orchestrator \<Rightarrow> bool" where
  "pool_bounded s \<longleftrightarrow> (\<forall>q. count_list (map fst (workers s)) q \<le> MAX_WORKERS)"

text \<open>When a phase has a worker, every earlier queue has no unfinished task; a node's
  work is begun by a worker of its phase.\<close>

definition barrier :: "orchestrator \<Rightarrow> bool" where
  "barrier s \<longleftrightarrow>
     (\<forall>q \<in> fst ` set (workers s). \<forall>p. phase_no p < phase_no q \<longrightarrow> unfinished_tasks s p = 0)
   \<and> (\<forall>q. begun s q \<noteq> [] \<longrightarrow> q \<in> fst ` set (workers s))"

text \<open>What holds at each point of the main thread.\<close>

definition drained :: "orchestrator \<Rightarrow> bool" where
  "drained s \<longleftrightarrow> unfinished_tasks s SetupBase = 0
     \<and> (COMPUTE_OS (globals s) \<noteq> ''ubuntu'' \<and> COMPUTE_OS (globals s) \<noteq> ''centos''
          \<longrightarrow> (\<forall>p. unfinished_tasks s p = 0))"

definition pc_ok :: "orchestrator \<Rightarrow> bool" where
  "pc_ok s \<longleftrightarrow>
     (case c_pc s of
        Start \<Rightarrow> workers s = [] \<and> management_node_thread s = NotStarted
                 \<and> reboot_thread s = NotStarted
      | Refused \<Rightarrow> workers s = [] \<and> management_node_thread s = NotStarted
                 \<and> reboot_thread s = NotStarted
      | Raised e \<Rightarrow> workers s = [] \<and> management_node_thread s = NotStarted
                 \<and> reboot_thread s = NotStarted
      | Spawn q k \<Rightarrow> count_list (map fst (workers s)) q = k \<and> k \<le> MAX_WORKERS
                 \<and> (\<forall>p. phase_no p < phase_no q \<longrightarrow> unfinished_tasks s p = 0)
                 \<and> (\<forall>p. phase_no q < phase_no p \<longrightarrow> p \<notin> fst ` set (workers s))
                 \<and> reboot_thread s = NotStarted
      | Join q \<Rightarrow> count_list (map fst (workers s)) q = MAX_WORKERS
                 \<and> (\<forall>p. phase_no p < phase_no q \<longrightarrow> unfinished_tasks s p = 0)
                 \<and> (\<forall>p. phase_no q < phase_no p \<longrightarrow> p \<notin> fst ` set (workers s))
                 \<and> reboot_thread s = NotStarted
      | JoinManagement \<Rightarrow> drained s \<and> reboot_thread s = NotStarted
      | JoinReboot \<Rightarrow> drained s \<and> management_node_thread s = Ended
      | Returned \<Rightarrow> drained s
                 \<and> (reboot_thread s \<noteq> NotStarted \<longrightarrow> management_node_thread s = Ended))"

definition staged :: "orchestrator \<Rightarrow> bool" where
  "staged s \<longleftrightarrow> pool_bounded s \<and> barrier s \<and> pc_ok s"

text \<open>The state during and after the loop over the nodes: no thread yet, and every
  queue counts its items.\<close>

definition loaded :: "orchestrator \<Rightarrow> bool" where
  "loaded s \<longleftrightarrow> workers s = [] \<and> (\<forall>p. begun s p = [] \<and> completed s p = []
       \<and> unfinished_tasks s p = length (queue s p))
     \<and> management_node_thread s = NotStarted \<and> reboot_thread s = NotStarted
     \<and> (c_pc s = Start \<or> raised s)"

text \<open>
  The packages that the Puppet manifest written for a node installs with \<^verbatim>\<open>dpkg\<close>, for a
  node that takes the first block of \<^verbatim>\<open>generate_command_for_node\<close>: the values given
  for \<^verbatim>\<open>cs_common\<close>, \<^verbatim>\<open>cs_mgmt\<close> and \<^verbatim>\<open>cs_agent\<close> at lines 1759 to 1778. The node's
  local script copies them from \<^verbatim>\<open>/tmp\<close> to the node.
\<close>

definition puppet_packages :: "Node \<Rightarrow> string list" where
  "puppet_packages node =
     (if role node = ROLE_MGMT then [CS_COMMON, CS_MGMT]
      else if role node = ROLE_COMPUTE then [CS_COMMON, CS_AGENT]
      else [])"

text \<open>A \<^verbatim>\<open>/tmp\<close> that holds all seven packages.\<close>

definition all_packages :: "string \<rightharpoonup> string" where
  "all_packages = map_of (map (\<lambda>name. (''/tmp/'' @ name, []))
     [CS_COMMON, CS_MGMT, CS_AGENT, CS_COMMON_RPM, CS_MGMT_RPM, CS_AWSAPI_RPM, CS_AGENT_RPM])"

text \<open>A \<^verbatim>\<open>/tmp\<close> that holds the \<^verbatim>\<open>.rpm\<close> of the common and of the management package and
  no \<^verbatim>\<open>.deb\<close>.\<close>

definition rpm_packages :: "string \<rightharpoonup> string" where
  "rpm_packages = map_of (map (\<lambda>name. (''/tmp/'' @ name, [])) [CS_COMMON_RPM, CS_MGMT_RPM])"

text \<open>A second node of the pool of \<open>example_xen_node\<close>.\<close>

definition example_xen_slave :: Node where
  "example_xen_slave = example_xen_node\<lparr>hostname := PStr ''10.0.0.3''\<rparr>"

text \<open>The workers that are working on a node.\<close>

definition working :: "orchestrator \<Rightarrow> (phase \<times> Node option) list" where
  "working s = filter (\<lambda>w. snd w \<noteq> None) (workers s)"

text \<open>Observations of a state, for the examples: the nodes whose work has begun in a
  phase, and the number of workers of a phase that are in \<^verbatim>\<open>get()\<close> with no node to
  take.\<close>

definition begun_in :: "phase \<Rightarrow> orchestrator \<Rightarrow> Node list" where
  "begun_in p s = begun s p"

definition blocked_in_get :: "phase \<Rightarrow> orchestrator \<Rightarrow> nat" where
  "blocked_in_get p s =
     length (filter (\<lambda>i. fst (workers s ! i) = p \<and> Option.is_none (snd (workers s ! i))
                          \<and> Option.is_none (worker_get i s))
               [0..<length (workers s)])"

section \<open>Properties of the Cleaner\<close>

text \<open>
  C10. Constructing a Cleaner raises a TypeError whatever the environment holds and
  whatever the client constructors would do: the membership test is made on the
  attribute that was just set to None. No Cleaner object is ever produced.
\<close>

theorem C10_Cleaner_init_raises:
  "Cleaner_init mk_neutron mk_keystone env =
     Inl (TypeError ''argument of type 'NoneType' is not iterable'')"
  by (simp add: Cleaner_init_def)

section \<open>Properties of TimedCommand.run\<close>

text \<open>
  What one call of \<open>run\<close> adds to the log, from any state of the object: at most one
  attempt more than the retries that are left; each attempt is made with the command of
  the object and the timeout of the call, the first with the shell flag of the call and
  every later one without a shell, and its outcome is the oracle's answer for it; every
  attempt but the last overran; \<^verbatim>\<open>terminate()\<close> was delivered to the child of an attempt
  exactly when the child was running at the timeout; and the last attempt decides the
  result of the call.
\<close>

lemma run_log:
  "run os T R sh (self, tr0) = (res, self', tr) \<Longrightarrow>
     \<exists>new. tr = tr0 @ new \<and> new \<noteq> [] \<and> length new \<le> Suc (R - tc_retries self)
       \<and> (\<forall>i < length new.
             a_cmd (new ! i) = tc_cmd self \<and> a_timeout (new ! i) = T
             \<and> a_shell (new ! i) = (i = 0 \<and> sh)
             \<and> a_outcome (new ! i) = os (length tr0 + i) (tc_cmd self) (i = 0 \<and> sh) T)
       \<and> (\<forall>a \<in> set (butlast new). overran a)
       \<and> (\<forall>a \<in> set new. a_terminated a = (overran a \<or> a_outcome a = Outlives))
       \<and> tc_cmd self' = tc_cmd self
       \<and> tc_retries self' = tc_retries self + (length new - 1)
       \<and> (case a_outcome (last new) of
             SpawnFails e \<Rightarrow> \<exists>out. res = Result (out, Some (OpenError (tc_cmd self) e))
           | Completes out err \<Rightarrow> res = Result (Some out, Some (Stderr err))
           | Overruns out err \<Rightarrow>
               res = Result (Some out, Some (TimeoutError (tc_cmd self)))
               \<and> R \<le> tc_retries self'
           | Outlives \<Rightarrow> res = Hang
           | EndsLate out err \<Rightarrow> \<exists>e. res = Raise e
           | SpawnPending \<Rightarrow> \<exists>e. res = Raise e)"
proof (induction os T R sh "(self, tr0)" arbitrary: self tr0 res self' tr rule: run.induct)
  case (1 os timeout retries shell self tr0)
  show ?case
  proof (cases "os (length tr0) (tc_cmd self) shell timeout")
    case (SpawnFails e)
    with "1.prems" show ?thesis
      by (auto simp: overran_def Let_def)
  next
    case (Completes out err)
    with "1.prems" show ?thesis
      by (auto simp: overran_def Let_def)
  next
    case Outlives
    with "1.prems" show ?thesis
      by (auto simp: overran_def Let_def)
  next
    case (EndsLate out err)
    with "1.prems" show ?thesis
      by (auto simp: overran_def Let_def)
  next
    case SpawnPending
    with "1.prems" show ?thesis
      by (auto simp: overran_def Let_def split: option.splits)
  next
    case (Overruns out err)
    show ?thesis
    proof (cases "tc_retries self < retries")
      case True
      let ?a = "\<lparr>a_cmd = tc_cmd self, a_shell = shell, a_timeout = timeout,
                 a_outcome = Overruns out err, a_terminated = True\<rparr>"
      let ?s1 = "self\<lparr>tc_process := Some (length tr0), tc_resp := Some out,
                      tc_errors := Some (Stderr err)\<rparr>"
      let ?self1 = "?s1\<lparr>tc_retries := tc_retries ?s1 + 1\<rparr>"
      from "1.prems" Overruns True
      have r: "run os timeout retries False (?self1, tr0 @ [?a]) = (res, self', tr)"
        by (simp add: Let_def)
      from True have lt: "tc_retries ?s1 < retries" by simp
      from "1.hyps"[OF Overruns refl refl lt r]
      obtain new where n: "tr = (tr0 @ [?a]) @ new" "new \<noteq> []"
       "length new \<le> Suc (retries - tc_retries ?self1)"
       "\<forall>i < length new.
             a_cmd (new ! i) = tc_cmd ?self1 \<and> a_timeout (new ! i) = timeout
             \<and> a_shell (new ! i) = (i = 0 \<and> False)
             \<and> a_outcome (new ! i)
                 = os (length (tr0 @ [?a]) + i) (tc_cmd ?self1) (i = 0 \<and> False) timeout"
       "\<forall>a \<in> set (butlast new). overran a"
       "\<forall>a \<in> set new. a_terminated a = (overran a \<or> a_outcome a = Outlives)"
       "tc_cmd self' = tc_cmd ?self1"
       "tc_retries self' = tc_retries ?self1 + (length new - 1)"
       "case a_outcome (last new) of
             SpawnFails e \<Rightarrow> \<exists>out. res = Result (out, Some (OpenError (tc_cmd ?self1) e))
           | Completes out err \<Rightarrow> res = Result (Some out, Some (Stderr err))
           | Overruns out err \<Rightarrow>
               res = Result (Some out, Some (TimeoutError (tc_cmd ?self1)))
               \<and> retries \<le> tc_retries self'
           | Outlives \<Rightarrow> res = Hang
           | EndsLate out err \<Rightarrow> \<exists>e. res = Raise e
           | SpawnPending \<Rightarrow> \<exists>e. res = Raise e"
        by blast
      have ov: "overran ?a" by (simp add: overran_def)
      have each: "a_cmd ((?a # new) ! i) = tc_cmd self \<and> a_timeout ((?a # new) ! i) = timeout
             \<and> a_shell ((?a # new) ! i) = (i = 0 \<and> shell)
             \<and> a_outcome ((?a # new) ! i) = os (length tr0 + i) (tc_cmd self) (i = 0 \<and> shell) timeout"
        if "i < length (?a # new)" for i
      proof (cases i)
        case 0
        with Overruns show ?thesis by simp
      next
        case (Suc j)
        with that have "j < length new" by simp
        with n(4) Suc show ?thesis by simp
      qed
      show ?thesis
      proof (intro exI[where x="?a # new"] conjI)
        show "tr = tr0 @ ?a # new" using n(1) by simp
        show "?a # new \<noteq> []" by simp
        show "length (?a # new) \<le> Suc (retries - tc_retries self)" using n(3) True by simp
        show "\<forall>i<length (?a # new).
          a_cmd ((?a # new) ! i) = tc_cmd self \<and> a_timeout ((?a # new) ! i) = timeout
          \<and> a_shell ((?a # new) ! i) = (i = 0 \<and> shell)
          \<and> a_outcome ((?a # new) ! i) = os (length tr0 + i) (tc_cmd self) (i = 0 \<and> shell) timeout"
          using each by blast
        show "\<forall>a\<in>set (butlast (?a # new)). overran a" using n(2,5) ov by simp
        show "\<forall>a\<in>set (?a # new). a_terminated a = (overran a \<or> a_outcome a = Outlives)"
          using n(6) ov by simp
        show "tc_cmd self' = tc_cmd self" using n(7) by simp
        show "tc_retries self' = tc_retries self + (length (?a # new) - 1)"
          using n(2,8) by (cases new) simp_all
        show "case a_outcome (last (?a # new)) of
             SpawnFails e \<Rightarrow> \<exists>out. res = Result (out, Some (OpenError (tc_cmd self) e))
           | Completes out err \<Rightarrow> res = Result (Some out, Some (Stderr err))
           | Overruns out err \<Rightarrow>
               res = Result (Some out, Some (TimeoutError (tc_cmd self)))
               \<and> retries \<le> tc_retries self'
           | Outlives \<Rightarrow> res = Hang
           | EndsLate out err \<Rightarrow> \<exists>e. res = Raise e
           | SpawnPending \<Rightarrow> \<exists>e. res = Raise e"
          using n(2,9) by (simp split: outcome.splits)
      qed
    next
      case False
      with "1.prems" Overruns show ?thesis
        by (auto simp: overran_def Let_def)
    qed
  qed
qed

text \<open>
  C2. The runner can hang. With
  \<^verbatim>\<open>TimedCommand('trap : TERM; while :; do sleep 1; done').run(timeout=5, retries=0, shell=True)\<close>
  the child is a shell that handles \<^verbatim>\<open>SIGTERM\<close> and goes on: it is running when the
  timeout has passed, it is sent \<^verbatim>\<open>terminate()\<close>, it does not end, and the runner is
  blocked for ever in the \<^verbatim>\<open>thread.join()\<close> that follows, which has no timeout. There is
  one attempt, its child was sent the signal, and the call does not return.
\<close>

theorem C2_run_hangs_after_terminate:
  "run (\<lambda>n c sh t. Outlives) 5 0 True
       (TimedCommand_init (CmdStr ''trap : TERM; while :; do sleep 1; done''), [])
     = (Hang,
        \<lparr>tc_cmd = CmdStr ''trap : TERM; while :; do sleep 1; done'', tc_process = Some 0,
          tc_retries = 0, tc_resp = None, tc_errors = None\<rparr>,
        [\<lparr>a_cmd = CmdStr ''trap : TERM; while :; do sleep 1; done'', a_shell = True,
           a_timeout = 5, a_outcome = Outlives, a_terminated = True\<rparr>])"
  by (simp add: TimedCommand_init_def)

text \<open>A child that has not been spawned when the timeout has passed, on a fresh object:
  \<^verbatim>\<open>self.process\<close> is \<^verbatim>\<open>None\<close> and the call raises.\<close>

lemma run_raises_before_spawn:
  "run (\<lambda>n c sh t. SpawnPending) 0 0 False (TimedCommand_init (CmdArgv [''sshpass'', ''-h'']), [])
     = (Raise (AttributeError ''terminate''), TimedCommand_init (CmdArgv [''sshpass'', ''-h'']),
        [\<lparr>a_cmd = CmdArgv [''sshpass'', ''-h''], a_shell = False, a_timeout = 0,
           a_outcome = SpawnPending, a_terminated = False\<rparr>])"
  by (simp add: TimedCommand_init_def)

text \<open>
  C3. The re-attempt is not made in the same execution mode. With
  \<^verbatim>\<open>TimedCommand('ssh root@node1 uptime').run(timeout=60, retries=1, shell=True)\<close>, on a
  system where the shell command overruns and where the same string, executed without a
  shell, is not the name of a program: the first attempt runs with \<^verbatim>\<open>shell=True\<close>, the
  retry with \<^verbatim>\<open>shell=False\<close>, and the caller gets the error of the failed spawn.
\<close>

theorem C3_retry_drops_shell:
  "run (\<lambda>n c sh t. if sh then Overruns [] []
                    else SpawnFails ''[Errno 2] No such file or directory'')
       60 1 True (TimedCommand_init (CmdStr ''ssh root@node1 uptime''), [])
     = (Result (Some [], Some (OpenError (CmdStr ''ssh root@node1 uptime'')
                                 ''[Errno 2] No such file or directory'')),
        \<lparr>tc_cmd = CmdStr ''ssh root@node1 uptime'', tc_process = Some 0, tc_retries = 1,
          tc_resp = Some [],
          tc_errors = Some (OpenError (CmdStr ''ssh root@node1 uptime'')
                              ''[Errno 2] No such file or directory'')\<rparr>,
        [\<lparr>a_cmd = CmdStr ''ssh root@node1 uptime'', a_shell = True, a_timeout = 60,
           a_outcome = Overruns [] [], a_terminated = True\<rparr>,
         \<lparr>a_cmd = CmdStr ''ssh root@node1 uptime'', a_shell = False, a_timeout = 60,
           a_outcome = SpawnFails ''[Errno 2] No such file or directory'',
           a_terminated = False\<rparr>])"
  by (simp add: TimedCommand_init_def)
section \<open>Properties of the template renderers\<close>

lemma format_scan_plain: "CHR ''%'' \<notin> set s \<Longrightarrow> format_scan d Plain s = Inr s"
  by (induction s) auto

lemma assign_all_defined: "m k \<noteq> None \<Longrightarrow> assign_all kvs m k \<noteq> None"
  by (induction kvs arbitrary: m) auto

lemma assign_all_map_add: "assign_all kvs m = m ++ map_of (rev kvs)"
  by (induction kvs arbitrary: m) (auto simp: map_add_def fun_eq_iff split: option.splits)

lemma assign_all_missing: "map_of kvs k = None \<Longrightarrow> assign_all kvs m k = m k"
  by (induction kvs arbitrary: m) (auto split: if_splits)

lemma map_of_rev_distinct: "distinct (map fst xs) \<Longrightarrow> map_of (rev xs) = map_of xs"
proof (induction xs)
  case Nil
  show ?case by simp
next
  case (Cons x xs)
  obtain k v where x: "x = (k, v)" by (cases x)
  from Cons.prems x have "k \<notin> dom (map_of xs)"
    by (simp add: dom_map_of_conv_image_fst)
  then have "map_of xs k = None" by blast
  with Cons x show ?case
    by (auto simp: map_add_def fun_eq_iff split: option.splits)
qed

lemma main_body_renders:
  assumes "d ''neutron_id'' = Some v1" "d ''bigswitch_serverauth'' = Some v2"
    "d ''bigswitch_servers'' = Some v3" "d ''bond_interfaces'' = Some v4"
    "d ''network_vlan_ranges'' = Some v5" "d ''bond_int0'' = Some v6"
    "d ''bond_int1'' = Some v7" "d ''physical_bridge'' = Some v8"
    "d ''bridge_mappings'' = Some v9" "d ''neutron_restart_refresh_only'' = Some v10"
    "d ''offline_mode'' = Some v11" "d ''bond_mode'' = Some v12"
    "d ''lldp_advertised_name'' = Some v13"
  shows "\<exists>text. py_format main_body d = Inr text"
  using assms by (simp add: py_format_def main_body_def)

lemma default_key_set:
  "map_of default_settings k \<noteq> None \<Longrightarrow>
     \<exists>v. pt_settings (PuppetTemplate_init settings) k = Some v"
  using assign_all_defined[of "map_of default_settings" k settings]
  by (auto simp: PuppetTemplate_init_def)

lemma init_main_body_renders:
  "\<exists>text. py_format main_body (pt_settings (PuppetTemplate_init settings)) = Inr text"
proof -
  let ?d = "pt_settings (PuppetTemplate_init settings)"
  have k: "\<And>k. map_of default_settings k \<noteq> None \<Longrightarrow> \<exists>v. ?d k = Some v"
    by (rule default_key_set)
  obtain v1 where 1: "?d ''neutron_id'' = Some v1"
    using k[of "''neutron_id''"] by (auto simp: default_settings_def)
  obtain v2 where 2: "?d ''bigswitch_serverauth'' = Some v2"
    using k[of "''bigswitch_serverauth''"] by (auto simp: default_settings_def)
  obtain v3 where 3: "?d ''bigswitch_servers'' = Some v3"
    using k[of "''bigswitch_servers''"] by (auto simp: default_settings_def)
  obtain v4 where 4: "?d ''bond_interfaces'' = Some v4"
    using k[of "''bond_interfaces''"] by (auto simp: default_settings_def)
  obtain v5 where 5: "?d ''network_vlan_ranges'' = Some v5"
    using k[of "''network_vlan_ranges''"] by (auto simp: default_settings_def)
  obtain v6 where 6: "?d ''bond_int0'' = Some v6"
    using k[of "''bond_int0''"] by (auto simp: default_settings_def)
  obtain v7 where 7: "?d ''bond_int1'' = Some v7"
    using k[of "''bond_int1''"] by (auto simp: default_settings_def)
  obtain v8 where 8: "?d ''physical_bridge'' = Some v8"
    using k[of "''physical_bridge''"] by (auto simp: default_settings_def)
  obtain v9 where 9: "?d ''bridge_mappings'' = Some v9"
    using k[of "''bridge_mappings''"] by (auto simp: default_settings_def)
  obtain v10 where 10: "?d ''neutron_restart_refresh_only'' = Some v10"
    using k[of "''neutron_restart_refresh_only''"] by (auto simp: default_settings_def)
  obtain v11 where 11: "?d ''offline_mode'' = Some v11"
    using k[of "''offline_mode''"] by (auto simp: default_settings_def)
  obtain v12 where 12: "?d ''bond_mode'' = Some v12"
    using k[of "''bond_mode''"] by (auto simp: default_settings_def)
  obtain v13 where 13: "?d ''lldp_advertised_name'' = Some v13"
    using k[of "''lldp_advertised_name''"] by (auto simp: default_settings_def)
  from main_body_renders[OF 1 2 3 4 5 6 7 8 9 10 11 12 13] show ?thesis .
qed

lemma file_resource_renders: "\<exists>r. file_resource pc = Inr r"
  by (simp add: file_resource_def py_format_def file_body_def Let_def)

lemma file_resources_renders: "\<exists>r. file_resources pcs m = Inr r"
proof (induction pcs arbitrary: m)
  case Nil
  show ?case by simp
next
  case (Cons pc pcs)
  obtain r where "file_resource pc = Inr r"
    using file_resource_renders by blast
  with Cons show ?case by simp
qed

text \<open>The object after the calls of \<^verbatim>\<open>add_replacement_file\<close> for a list of files.\<close>

lemma added_files:
  "fold (\<lambda>pc. add_replacement_file (fst pc) (snd pc)) fs self
     = self\<lparr>files_to_replace := files_to_replace self @ fs\<rparr>"
  by (induction fs arbitrary: self) (simp_all add: add_replacement_file_def)

lemma get_string_depends:
  assumes "pt_settings s1 = pt_settings s2" "files_to_replace s1 = files_to_replace s2"
  shows "get_string B s1 = get_string B s2"
  unfolding get_string_def setting_def assms ..

text \<open>
  C4, as the code has it. \<^verbatim>\<open>PuppetTemplate.__init__\<close> starts from a dict that gives a
  default to every key of its templates, so no key can be missing when the manifest is
  rendered: for every input mapping, complete or not, and every list of replacement
  files, \<open>get_string\<close> returns a text, and a key that the input leaves out has its
  default value (the empty string, or \<^verbatim>\<open>br-ovs-bond0\<close> for \<^verbatim>\<open>physical_bridge\<close>).
  The hypothesis is a fact of the source: \<^verbatim>\<open>neutron_body\<close> holds no percent sign.
\<close>

theorem C4_missing_keys_take_defaults:
  assumes "CHR ''%'' \<notin> set (neutron_body B)"
  shows "(\<exists>text. get_string B ((PuppetTemplate_init settings)\<lparr>files_to_replace := fs\<rparr>)
                   = Inr text)
    \<and> (\<forall>k. map_of settings k = None \<longrightarrow>
          pt_settings (PuppetTemplate_init settings) k = map_of default_settings k)"
proof -
  let ?self = "(PuppetTemplate_init settings)\<lparr>files_to_replace := fs\<rparr>"
  obtain manifest where m: "py_format main_body (pt_settings ?self) = Inr manifest"
    using init_main_body_renders[of settings] by auto
  obtain np where np: "setting ?self ''neutron_path'' = Inr np"
    using default_key_set[of "''neutron_path''" settings]
    by (auto simp: setting_def default_settings_def)
  obtain bi where bi: "setting ?self ''bond_interfaces'' = Inr bi"
    using default_key_set[of "''bond_interfaces''" settings]
    by (auto simp: setting_def default_settings_def)
  have nb: "py_format (neutron_body B) (pt_settings ?self) = Inr (neutron_body B)"
    using assms by (simp add: py_format_def format_scan_plain)
  have "\<exists>text. get_string B ?self = Inr text"
    using m np bi nb file_resources_renders by (simp add: get_string_def)
  moreover have "\<forall>k. map_of settings k = None \<longrightarrow>
          pt_settings (PuppetTemplate_init settings) k = map_of default_settings k"
    by (simp add: PuppetTemplate_init_def assign_all_missing)
  ultimately show ?thesis by blast
qed

theorem C4_missing_keys_take_defaults_witness:
  "CHR ''%'' \<notin> set (neutron_body \<lparr>neutron_body = ''exec{}'', bond_and_lldpd_configuration = ''exec {}''\<rparr>)
   \<and> (\<exists>text. get_string \<lparr>neutron_body = ''exec{}'', bond_and_lldpd_configuration = ''exec {}''\<rparr>
                ((PuppetTemplate_init [(''neutron_id'', PStr ''neutron'')])\<lparr>files_to_replace := []\<rparr>)
                = Inr text)
   \<and> pt_settings (PuppetTemplate_init [(''neutron_id'', PStr ''neutron'')]) ''physical_bridge''
       = map_of default_settings ''physical_bridge''"
proof -
  have h: "CHR ''%'' \<notin> set (neutron_body \<lparr>neutron_body = ''exec{}'', bond_and_lldpd_configuration = ''exec {}''\<rparr>)"
    by simp
  have n: "map_of [(''neutron_id'', PStr ''neutron'')] ''physical_bridge'' = None"
    by simp
  from C4_missing_keys_take_defaults[OF h, where settings = "[(''neutron_id'', PStr ''neutron'')]"
      and fs = "[]"] h n
  show ?thesis by blast
qed

text \<open>
  The claim as stated fails: an input mapping that leaves out \<^verbatim>\<open>physical_bridge\<close>, a
  key of \<^verbatim>\<open>main_body\<close>, is rendered, with \<^verbatim>\<open>br-ovs-bond0\<close> in its place.
\<close>

theorem C4_counterexample:
  "get_string \<lparr>neutron_body = ''exec{}'', bond_and_lldpd_configuration = ''exec {}''\<rparr>
     (PuppetTemplate_init
        [(''neutron_id'', PStr ''neutron''), (''bigswitch_serverauth'', PStr ''admin:pw''),
         (''bigswitch_servers'', PStr ''10.0.0.1:8000''), (''bond_interfaces'', PStr ''eth1,eth2''),
         (''network_vlan_ranges'', PStr ''physnet1:100:200''), (''bond_int0'', PStr ''eth1''),
         (''bond_int1'', PStr ''eth2''), (''bridge_mappings'', PStr ''physnet1:br-eth1''),
         (''neutron_restart_refresh_only'', PStr ''true''), (''offline_mode'', PStr ''false''),
         (''bond_mode'', PInt 2), (''lldp_advertised_name'', PStr ''node1'')])
   = Inr ''\<newline>$neutron_id = 'neutron'\<newline>$bigswitch_serverauth = 'admin:pw'\<newline>$bigswitch_servers = '10.0.0.1:8000'\<newline>$bond_interfaces = 'eth1,eth2'\<newline>$network_vlan_ranges = 'physnet1:100:200'\<newline>$bond_int0 = 'eth1'\<newline>$bond_int1 = 'eth2'\<newline>$phy_bridge = 'br-ovs-bond0'\<newline>$ovs_bridge_mappings = 'physnet1:br-eth1'\<newline>$neutron_restart_refresh_only = 'true'\<newline># delay in milliseconds before bond interface is used after coming online\<newline>$bond_updelay = '15000'\<newline># time in seconds between lldp transmissions\<newline>$lldp_transmit_interval = '5'\<newline>$offline_mode = false\<newline>$bond_mode = 2\<newline>$lldp_advertised_name = 'node1'\<newline>exec {}''"
  by code_simp

text \<open>
  C5. Rendering depends on the input mapping alone. For the Puppet manifest: two
  argument dicts that hold the same mapping, in whatever order their keys are iterated,
  give the same text (with the same replacement files). For the interface file: the text
  written for a node is the same in every state of the globals and of the file system.
\<close>

theorem C5_rendering_is_pure:
  assumes "distinct (map fst a)" "distinct (map fst b)" "map_of a = map_of b"
  shows "get_string B ((PuppetTemplate_init a)\<lparr>files_to_replace := fs\<rparr>)
       = get_string B ((PuppetTemplate_init b)\<lparr>files_to_replace := fs\<rparr>)
    \<and> (case generate_interface_config node w1 of
          Inl e \<Rightarrow> Inl e | Inr w' \<Rightarrow> Inr (files w' (intf_path node)))
      = (case generate_interface_config node w2 of
          Inl e \<Rightarrow> Inl e | Inr w' \<Rightarrow> Inr (files w' (intf_path node)))"
proof -
  from assms have "map_of (rev a) = map_of (rev b)"
    by (simp add: map_of_rev_distinct)
  then have "pt_settings (PuppetTemplate_init a) = pt_settings (PuppetTemplate_init b)"
    by (simp add: PuppetTemplate_init_def assign_all_map_add)
  then have "get_string B ((PuppetTemplate_init a)\<lparr>files_to_replace := fs\<rparr>)
       = get_string B ((PuppetTemplate_init b)\<lparr>files_to_replace := fs\<rparr>)"
    by (intro get_string_depends) simp_all
  moreover have "(case generate_interface_config node w1 of
          Inl e \<Rightarrow> Inl e | Inr w' \<Rightarrow> Inr (files w' (intf_path node)))
      = (case generate_interface_config node w2 of
          Inl e \<Rightarrow> Inl e | Inr w' \<Rightarrow> Inr (files w' (intf_path node)))"
    by (cases "interface_config node") (simp_all add: generate_interface_config_def bindE_def)
  ultimately show ?thesis by simp
qed

theorem C5_rendering_is_pure_witness:
  "distinct (map fst [(''neutron_id'', PStr ''neutron''), (''bond_mode'', PInt 2)])
   \<and> distinct (map fst [(''bond_mode'', PInt 2), (''neutron_id'', PStr ''neutron'')])
   \<and> map_of [(''neutron_id'', PStr ''neutron''), (''bond_mode'', PInt 2)]
       = map_of [(''bond_mode'', PInt 2), (''neutron_id'', PStr ''neutron'')]
   \<and> get_string \<lparr>neutron_body = ''exec{}'', bond_and_lldpd_configuration = ''exec {}''\<rparr>
         ((PuppetTemplate_init [(''neutron_id'', PStr ''neutron''), (''bond_mode'', PInt 2)])
            \<lparr>files_to_replace := []\<rparr>)
       = get_string \<lparr>neutron_body = ''exec{}'', bond_and_lldpd_configuration = ''exec {}''\<rparr>
         ((PuppetTemplate_init [(''bond_mode'', PInt 2), (''neutron_id'', PStr ''neutron'')])
            \<lparr>files_to_replace := []\<rparr>)
   \<and> (case generate_interface_config example_compute_node
            \<lparr>files = Map.empty, COMPUTE_OS = ''ubuntu'', MGMT_OS = ''ubuntu'',
              MASTER_NODES = Map.empty, POOL_SIZES = Map.empty, MANAGEMENT_NODE = None\<rparr> of
          Inl e \<Rightarrow> Inl e | Inr w' \<Rightarrow> Inr (files w' (intf_path example_compute_node)))
      = (case generate_interface_config example_compute_node
            \<lparr>files = [''/tmp/10.0.0.2.intf'' \<mapsto> ''stale''], COMPUTE_OS = ''xenserver'',
              MGMT_OS = ''centos'', MASTER_NODES = [PStr ''pool1'' \<mapsto> example_compute_node],
              POOL_SIZES = [PStr ''pool1'' \<mapsto> 1],
              MANAGEMENT_NODE = Some example_compute_node\<rparr> of
          Inl e \<Rightarrow> Inl e | Inr w' \<Rightarrow> Inr (files w' (intf_path example_compute_node)))"
proof -
  have h1: "distinct (map fst [(''neutron_id'', PStr ''neutron''), (''bond_mode'', PInt 2)])"
    by simp
  have h2: "distinct (map fst [(''bond_mode'', PInt 2), (''neutron_id'', PStr ''neutron'')])"
    by simp
  have h3: "map_of [(''neutron_id'', PStr ''neutron''), (''bond_mode'', PInt 2)]
       = map_of [(''bond_mode'', PInt 2), (''neutron_id'', PStr ''neutron'')]"
    by (auto simp: fun_eq_iff)
  from C5_rendering_is_pure[OF h1 h2 h3] h1 h2 h3 show ?thesis
    by blast
qed

section \<open>Properties of ConfigDeployer.deploy_to_all\<close>

text \<open>The actions of the transition system, case by case.\<close>

lemma main_step_cases [consumes 1, case_names to_drain spawn spawn_pop joined drained drain_next]:
  assumes "main_step s = Some s'"
  obtains
    "d_pc s = Loop" "d_todo s = []" "s' = s\<lparr>d_pc := Drain (thread_list s)\<rparr>"
  | node rest where "d_pc s = Loop" "d_todo s = node # rest"
      "length (thread_list s) + 1 < MAX_THREADS"
      "s' = s\<lparr>d_todo := rest, d_started := d_started s + 1,
                thread_list := thread_list s @ [d_started s],
                d_alive := d_alive s @ [(d_started s, node)]\<rparr>"
  | node rest where "d_pc s = Loop" "d_todo s = node # rest"
      "length (thread_list s) + 1 \<ge> MAX_THREADS"
      "s' = s\<lparr>d_todo := rest, d_started := d_started s + 1,
                d_alive := d_alive s @ [(d_started s, node)],
                d_pc := JoinTop (hd (thread_list s @ [d_started s])),
                thread_list := tl (thread_list s @ [d_started s])\<rparr>"
  | oldest where "d_pc s = JoinTop oldest" "oldest \<notin> fst ` set (d_alive s)"
      "s' = s\<lparr>d_pc := Loop\<rparr>"
  | "d_pc s = Drain []"
      "s' = s\<lparr>d_pc := Done, printed := printed s @ report (errors s) (node_information s)\<rparr>"
  | t rest where "d_pc s = Drain (t # rest)" "t \<notin> fst ` set (d_alive s)"
      "s' = s\<lparr>d_pc := Drain rest\<rparr>"
proof (cases "d_pc s")
  case Loop
  show ?thesis
  proof (cases "d_todo s")
    case Nil
    with Loop assms that(1) show ?thesis by (simp add: main_step_def)
  next
    case (Cons node rest)
    show ?thesis
    proof (cases "length (thread_list s) + 1 < MAX_THREADS")
      case True
      with Loop Cons assms that(2) show ?thesis by (simp add: main_step_def Let_def)
    next
      case False
      with Loop Cons assms that(3)[of node rest] show ?thesis
        by (simp add: main_step_def Let_def)
    qed
  qed
next
  case (JoinTop oldest)
  with assms that(4) show ?thesis by (simp add: main_step_def split: if_splits)
next
  case (Drain js)
  with assms that(5) that(6) show ?thesis
    by (cases js) (simp_all add: main_step_def split: if_splits)
next
  case Done
  with assms show ?thesis by (simp add: main_step_def)
qed

lemma thread_end_cases [consumes 1, case_names raises informs silent]:
  assumes "thread_end behaviour i s = Some s'"
  obtains
    node msg where "map_of (d_alive s) i = Some node" "behaviour i = Raises msg"
      "s' = s\<lparr>d_alive := filter (\<lambda>jn. fst jn \<noteq> i) (d_alive s),
                d_ended := d_ended s @ [i], errors := errors s @ [(node, msg)]\<rparr>"
  | node conn where "map_of (d_alive s) i = Some node" "behaviour i = Succeeds (Some conn)"
      "s' = s\<lparr>d_alive := filter (\<lambda>jn. fst jn \<noteq> i) (d_alive s),
                d_ended := d_ended s @ [i],
                node_information := node_information s @ [(node, conn)]\<rparr>"
  | node where "map_of (d_alive s) i = Some node" "behaviour i = Succeeds None"
      "s' = s\<lparr>d_alive := filter (\<lambda>jn. fst jn \<noteq> i) (d_alive s),
                d_ended := d_ended s @ [i]\<rparr>"
  using assms
  by (auto simp: thread_end_def Let_def split: option.splits result.splits)

lemma inv_ids_init: "inv_ids nodes (deploy_to_all_init nodes)"
  by (simp add: inv_ids_def deploy_to_all_init_def)

lemma inv_errors_init: "inv_errors behaviour nodes (deploy_to_all_init nodes)"
  by (simp add: inv_errors_def deploy_to_all_init_def)

lemma inv_pc_init: "inv_pc (deploy_to_all_init nodes)"
  by (simp add: inv_pc_def deploy_to_all_init_def MAX_THREADS_def)

lemma inv_ids_spawn:
  assumes "inv_ids nodes s" "d_todo s = node # rest"
    and eq: "d_todo s' = rest" "d_started s' = d_started s + 1"
      "d_alive s' = d_alive s @ [(d_started s, node)]" "d_ended s' = d_ended s"
  shows "inv_ids nodes s'"
proof -
  from assms(1) have st: "d_started s \<le> length nodes"
    and td: "d_todo s = drop (d_started s) nodes"
    and da: "distinct (map fst (d_alive s))" and de: "distinct (d_ended s)"
    and un: "fst ` set (d_alive s) \<union> set (d_ended s) = {0..<d_started s}"
    and dj: "fst ` set (d_alive s) \<inter> set (d_ended s) = {}"
    and nd: "\<forall>jn \<in> set (d_alive s). snd jn = nodes ! fst jn"
    by (simp_all add: inv_ids_def)
  from td assms(2) have lt: "d_started s < length nodes"
    by (metis drop_eq_Nil linorder_not_less list.distinct(1))
  from td assms(2) lt have node: "node = nodes ! d_started s"
    and rest: "rest = drop (Suc (d_started s)) nodes"
    by (simp_all add: Cons_nth_drop_Suc[symmetric])
  from un have fresh: "d_started s \<notin> fst ` set (d_alive s)" "d_started s \<notin> set (d_ended s)"
    by auto
  have "fst ` set (d_alive s') \<union> set (d_ended s') = {0..<d_started s'}"
    using un eq by (auto simp: less_Suc_eq)
  moreover have "fst ` set (d_alive s') \<inter> set (d_ended s') = {}"
    using dj fresh eq by auto
  moreover have "distinct (map fst (d_alive s'))"
    using da fresh eq by simp
  moreover have "\<forall>jn \<in> set (d_alive s'). snd jn = nodes ! fst jn"
    using nd node eq by simp
  ultimately show ?thesis
    using lt rest de eq by (simp add: inv_ids_def)
qed

lemma main_step_inv_ids:
  assumes "inv_ids nodes s" "main_step s = Some s'"
  shows "inv_ids nodes s'"
  using assms(2)
proof (cases rule: main_step_cases)
  case (spawn node rest)
  from assms(1) spawn(2) show ?thesis
    by (rule inv_ids_spawn) (simp_all add: spawn(4))
next
  case (spawn_pop node rest)
  from assms(1) spawn_pop(2) show ?thesis
    by (rule inv_ids_spawn) (simp_all add: spawn_pop(4))
qed (use assms(1) in \<open>simp_all add: inv_ids_def\<close>)

lemma inv_ids_end:
  assumes "inv_ids nodes s" "map_of (d_alive s) i = Some node"
    and eq: "d_todo s' = d_todo s" "d_started s' = d_started s"
      "d_alive s' = filter (\<lambda>jn. fst jn \<noteq> i) (d_alive s)" "d_ended s' = d_ended s @ [i]"
  shows "inv_ids nodes s'"
proof -
  from assms(1) have st: "d_started s \<le> length nodes"
    and td: "d_todo s = drop (d_started s) nodes"
    and da: "distinct (map fst (d_alive s))" and de: "distinct (d_ended s)"
    and un: "fst ` set (d_alive s) \<union> set (d_ended s) = {0..<d_started s}"
    and dj: "fst ` set (d_alive s) \<inter> set (d_ended s) = {}"
    and nd: "\<forall>jn \<in> set (d_alive s). snd jn = nodes ! fst jn"
    by (simp_all add: inv_ids_def)
  from assms(2) have mem: "(i, node) \<in> set (d_alive s)" by (rule map_of_SomeD)
  then have ia: "i \<in> fst ` set (d_alive s)" by force
  with dj have ie: "i \<notin> set (d_ended s)" by auto
  have img: "fst ` set (filter (\<lambda>jn. fst jn \<noteq> i) (d_alive s)) = fst ` set (d_alive s) - {i}"
    by force
  have "fst ` set (d_alive s') \<union> set (d_ended s') = {0..<d_started s'}"
    using un ia eq img by auto
  moreover have "fst ` set (d_alive s') \<inter> set (d_ended s') = {}"
    using dj eq img by auto
  moreover have "distinct (map fst (d_alive s'))"
    using da eq by (simp add: distinct_map_filter)
  moreover have "distinct (d_ended s')"
    using de ie eq by simp
  moreover have "\<forall>jn \<in> set (d_alive s'). snd jn = nodes ! fst jn"
    using nd eq by simp
  ultimately show ?thesis
    using st td eq by (simp add: inv_ids_def)
qed

lemma thread_end_inv_ids:
  assumes "inv_ids nodes s" "thread_end behaviour i s = Some s'"
  shows "inv_ids nodes s'"
  using assms(2)
proof (cases rule: thread_end_cases)
  case (raises node msg)
  from assms(1) raises(1) show ?thesis by (rule inv_ids_end) (simp_all add: raises(3))
next
  case (informs node conn)
  from assms(1) informs(1) show ?thesis by (rule inv_ids_end) (simp_all add: informs(3))
next
  case (silent node)
  from assms(1) silent(1) show ?thesis by (rule inv_ids_end) (simp_all add: silent(3))
qed

lemma main_step_inv_errors:
  assumes "inv_errors behaviour nodes s" "main_step s = Some s'"
  shows "inv_errors behaviour nodes s'"
  using assms(2)
  by (cases rule: main_step_cases) (use assms(1) in \<open>simp_all add: inv_errors_def\<close>)

lemma thread_end_inv_errors:
  assumes "inv_ids nodes s" "inv_errors behaviour nodes s" "thread_end behaviour i s = Some s'"
  shows "inv_errors behaviour nodes s'"
proof -
  have nd: "node = nodes ! i" if "map_of (d_alive s) i = Some node" for node
  proof -
    from that have "(i, node) \<in> set (d_alive s)" by (rule map_of_SomeD)
    with assms(1) show ?thesis by (force simp: inv_ids_def)
  qed
  from assms(3) show ?thesis
    by (cases rule: thread_end_cases)
       (use assms(2) nd in \<open>simp_all add: inv_errors_def failure_of_def\<close>)
qed

lemma main_step_inv_pc:
  assumes "inv_pc s" "main_step s = Some s'"
  shows "inv_pc s'"
  using assms(2)
proof (cases rule: main_step_cases)
  case (spawn_pop node rest)
  with assms(1) show ?thesis
    by (cases "thread_list s") (auto simp: inv_pc_def MAX_THREADS_def)
qed (use assms(1) in \<open>auto simp: inv_pc_def\<close>)

lemma thread_end_inv_pc:
  assumes "inv_pc s" "thread_end behaviour i s = Some s'"
  shows "inv_pc s'"
proof -
  have sub: "fst ` set (filter (\<lambda>jn. fst jn \<noteq> i) (d_alive s)) \<subseteq> fst ` set (d_alive s)"
    by auto
  from assms(2) show ?thesis
  proof (cases rule: thread_end_cases)
    case (raises node msg)
    then have "map_of (d_alive s) i \<noteq> None" by simp
    then have "d_alive s \<noteq> []" by auto
    with assms(1) sub raises(3) show ?thesis
      by (cases "d_pc s") (auto simp: inv_pc_def)
  next
    case (informs node conn)
    then have "map_of (d_alive s) i \<noteq> None" by simp
    then have "d_alive s \<noteq> []" by auto
    with assms(1) sub informs(3) show ?thesis
      by (cases "d_pc s") (auto simp: inv_pc_def)
  next
    case (silent node)
    then have "map_of (d_alive s) i \<noteq> None" by simp
    then have "d_alive s \<noteq> []" by auto
    with assms(1) sub silent(3) show ?thesis
      by (cases "d_pc s") (auto simp: inv_pc_def)
  qed
qed

lemma dstep_dinv:
  assumes "dinv behaviour nodes s" "dstep behaviour s a = Some s'"
  shows "dinv behaviour nodes s'"
proof (cases a)
  case MainStep
  with assms show ?thesis
    using main_step_inv_ids[of nodes s s'] main_step_inv_errors[of behaviour nodes s s']
      main_step_inv_pc[of s s']
    by (simp add: dinv_def)
next
  case (ThreadEnd i)
  with assms show ?thesis
    using thread_end_inv_ids[of nodes s behaviour i s']
      thread_end_inv_errors[of nodes s behaviour i s'] thread_end_inv_pc[of s behaviour i s']
    by (simp add: dinv_def)
qed

lemma dexec_dinv:
  "dinv behaviour nodes s \<Longrightarrow> dexec behaviour acts s = Some s' \<Longrightarrow> dinv behaviour nodes s'"
proof (induction acts arbitrary: s)
  case Nil
  then show ?case by simp
next
  case (Cons a acts)
  from Cons.prems(2) obtain s1 where s1: "dstep behaviour s a = Some s1"
    and rest: "dexec behaviour acts s1 = Some s'"
    by (auto split: option.splits)
  from Cons.IH[OF dstep_dinv[OF Cons.prems(1) s1] rest] show ?case .
qed

lemma reachable_dinv:
  "dexec behaviour acts (deploy_to_all_init nodes) = Some s \<Longrightarrow> dinv behaviour nodes s"
proof -
  assume r: "dexec behaviour acts (deploy_to_all_init nodes) = Some s"
  have "dinv behaviour nodes (deploy_to_all_init nodes)"
    by (simp add: dinv_def inv_ids_init inv_errors_init inv_pc_init)
  from dexec_dinv[OF this r] show ?thesis .
qed










lemma alive_bound:
  assumes "dinv behaviour nodes s"
  shows "length (d_alive s) \<le> MAX_THREADS"
proof -
  from assms have d: "distinct (map fst (d_alive s))" and pc: "inv_pc s"
    by (simp_all add: dinv_def inv_ids_def)
  from d have len: "length (d_alive s) = card (fst ` set (d_alive s))"
    by (metis distinct_card length_map set_map)
  have sub: "card (fst ` set (d_alive s)) \<le> card A" if "fst ` set (d_alive s) \<subseteq> A" "finite A" for A
    using that by (simp add: card_mono)
  show ?thesis
  proof (cases "d_pc s")
    case Loop
    with pc have "fst ` set (d_alive s) \<subseteq> set (thread_list s)"
      and l: "length (thread_list s) < MAX_THREADS" by (simp_all add: inv_pc_def)
    from sub[OF this(1)] l len card_length[of "thread_list s"] show ?thesis by simp
  next
    case (JoinTop oldest)
    with pc have "fst ` set (d_alive s) \<subseteq> insert oldest (set (thread_list s))"
      and l: "length (thread_list s) < MAX_THREADS" by (simp_all add: inv_pc_def)
    from sub[OF this(1)] l len card_length[of "thread_list s"]
      card_insert_le_m1[of 1 "set (thread_list s)" oldest]
    show ?thesis by (simp add: card_insert_if split: if_splits)
  next
    case (Drain js)
    with pc have "fst ` set (d_alive s) \<subseteq> set js"
      and l: "length js < MAX_THREADS" by (simp_all add: inv_pc_def)
    from sub[OF this(1)] l len card_length[of js] show ?thesis by simp
  next
    case Done
    with pc show ?thesis by (simp add: inv_pc_def)
  qed
qed



section \<open>Properties of the CloudStack deploy_to_all\<close>

lemma busy_nodes_append_idle [simp]: "busy_nodes (ws @ [(q, None)]) p = busy_nodes ws p"
  by (induction ws p rule: busy_nodes.induct) auto

lemma busy_nodes_take:
  "i < length ws \<Longrightarrow> ws ! i = (p, None) \<Longrightarrow>
     mset (busy_nodes (ws[i := (p, Some node)]) q)
       = mset (busy_nodes ws q) + (if q = p then {#node#} else {#})"
proof (induction ws q arbitrary: i rule: busy_nodes.induct)
  case (1 q)
  then show ?case by simp
next
  case (2 r ws q)
  then show ?case by (cases i) auto
next
  case (3 r n ws q)
  then show ?case by (cases i) auto
qed

lemma busy_nodes_release:
  "i < length ws \<Longrightarrow> ws ! i = (p, Some node) \<Longrightarrow>
     mset (busy_nodes ws q)
       = mset (busy_nodes (ws[i := (p, None)]) q) + (if q = p then {#node#} else {#})"
proof (induction ws q arbitrary: i rule: busy_nodes.induct)
  case (1 q)
  then show ?case by simp
next
  case (2 r ws q)
  then show ?case by (cases i) auto
next
  case (3 r n ws q)
  then show ?case by (cases i) auto
qed

lemma map_fst_update: "i < length ws \<Longrightarrow> fst (ws ! i) = p \<Longrightarrow> map fst (ws[i := (p, x)]) = map fst ws"
  by (simp add: map_update list_update_same_conv)

lemma cmain_cases [consumes 1, case_names start spawn spawned joined join_management join_reboot]:
  assumes "cmain s = Some s'"
  obtains
    "c_pc s = Start"
      "s' = s\<lparr>management_node_thread :=
                 (if MANAGEMENT_NODE (globals s) \<noteq> None then Running else NotStarted),
               c_pc := Spawn SetupBase 0\<rparr>"
  | p k where "c_pc s = Spawn p k" "k < MAX_WORKERS"
      "s' = s\<lparr>workers := workers s @ [(p, None)], c_pc := Spawn p (k + 1)\<rparr>"
  | p k where "c_pc s = Spawn p k" "\<not> k < MAX_WORKERS" "s' = s\<lparr>c_pc := Join p\<rparr>"
  | p where "c_pc s = Join p" "unfinished_tasks s p = 0" "s' = after_join p s"
  | "c_pc s = JoinManagement" "management_node_thread s = Ended"
      "s' = s\<lparr>reboot_thread := Running, c_pc := JoinReboot\<rparr>"
  | "c_pc s = JoinReboot" "reboot_thread s = Ended" "s' = s\<lparr>c_pc := Returned\<rparr>"
  using assms by (cases "c_pc s") (auto simp: cmain_def split: if_splits)

lemma after_join_fields:
  "workers (after_join p s) = workers s" "queue (after_join p s) = queue s"
  "unfinished_tasks (after_join p s) = unfinished_tasks s" "begun (after_join p s) = begun s"
  "completed (after_join p s) = completed s" "globals (after_join p s) = globals s"
  "management_node_thread (after_join p s) = management_node_thread s"
  "reboot_thread (after_join p s) = reboot_thread s"
  by (cases p; simp add: finish_def)+

lemma worker_get_cases [consumes 1, case_names took]:
  assumes "worker_get i s = Some s'"
  obtains p node rest where "i < length (workers s)" "workers s ! i = (p, None)"
    "queue s p = node # rest"
    "s' = s\<lparr>workers := (workers s)[i := (p, Some node)], queue := (queue s)(p := rest),
             begun := (begun s)(p := begun s p @ [node])\<rparr>"
  using assms
  by (auto simp: worker_get_def split: if_splits prod.splits option.splits list.splits)

lemma worker_task_done_cases [consumes 1, case_names finished]:
  assumes "worker_task_done i s = Some s'"
  obtains p node where "i < length (workers s)" "workers s ! i = (p, Some node)"
    "s' = s\<lparr>workers := (workers s)[i := (p, None)],
             unfinished_tasks := (unfinished_tasks s)(p := unfinished_tasks s p - 1),
             completed := (completed s)(p := completed s p @ [node])\<rparr>"
  using assms
  by (auto simp: worker_task_done_def split: if_splits prod.splits option.splits)

lemma cmain_accounted:
  assumes "accounted s0 s" "cmain s = Some s'"
  shows "accounted s0 s'"
  using assms(2)
  by (cases rule: cmain_cases) (use assms(1) in \<open>simp_all add: accounted_def after_join_fields\<close>)

lemma worker_get_accounted:
  assumes "accounted s0 s" "worker_get i s = Some s'"
  shows "accounted s0 s'"
  using assms(2)
proof (cases rule: worker_get_cases)
  case (took p node rest)
  have b: "mset (busy_nodes (workers s') q)
       = mset (busy_nodes (workers s) q) + (if q = p then {#node#} else {#})" for q
    using busy_nodes_take[OF took(1,2)] took(4) by simp
  have l: "length (busy_nodes (workers s') q)
       = length (busy_nodes (workers s) q) + (if q = p then 1 else 0)" for q
    using arg_cong[OF b[of q], of size] by simp
  from assms(1) have g: "globals s = globals s0"
    and a: "\<And>q. unfinished_tasks s q = length (queue s q) + length (busy_nodes (workers s) q)"
    and q0: "\<And>q. begun s q @ queue s q = queue s0 q"
    and m: "\<And>q. mset (begun s q) = mset (completed s q) + mset (busy_nodes (workers s) q)"
    by (simp_all add: accounted_def)
  have "unfinished_tasks s' q = length (queue s' q) + length (busy_nodes (workers s') q)" for q
    using a[of q] l[of q] took(3,4) by (cases "q = p") auto
  moreover have "begun s' q @ queue s' q = queue s0 q" for q
    using q0[of q] took(3,4) by (cases "q = p") auto
  moreover have "mset (begun s' q) = mset (completed s' q) + mset (busy_nodes (workers s') q)" for q
    using m[of q] b[of q] took(4) by (cases "q = p") auto
  moreover have "globals s' = globals s0" using g took(4) by simp
  ultimately show ?thesis by (simp add: accounted_def)
qed

lemma worker_task_done_accounted:
  assumes "accounted s0 s" "worker_task_done i s = Some s'"
  shows "accounted s0 s'"
  using assms(2)
proof (cases rule: worker_task_done_cases)
  case (finished p node)
  have b: "mset (busy_nodes (workers s) q)
       = mset (busy_nodes (workers s') q) + (if q = p then {#node#} else {#})" for q
    using busy_nodes_release[OF finished(1,2)] finished(3) by simp
  have l: "length (busy_nodes (workers s) q)
       = length (busy_nodes (workers s') q) + (if q = p then 1 else 0)" for q
    using arg_cong[OF b[of q], of size] by simp
  from assms(1) have g: "globals s = globals s0"
    and a: "\<And>q. unfinished_tasks s q = length (queue s q) + length (busy_nodes (workers s) q)"
    and q0: "\<And>q. begun s q @ queue s q = queue s0 q"
    and m: "\<And>q. mset (begun s q) = mset (completed s q) + mset (busy_nodes (workers s) q)"
    by (simp_all add: accounted_def)
  have "unfinished_tasks s' q = length (queue s' q) + length (busy_nodes (workers s') q)" for q
    using a[of q] l[of q] finished(3) by (cases "q = p") auto
  moreover have "begun s' q @ queue s' q = queue s0 q" for q
    using q0[of q] finished(3) by (cases "q = p") auto
  moreover have "mset (begun s' q) = mset (completed s' q) + mset (busy_nodes (workers s') q)" for q
    using m[of q] b[of q] finished(3) by (cases "q = p") auto
  moreover have "globals s' = globals s0" using g finished(3) by simp
  ultimately show ?thesis by (simp add: accounted_def)
qed

lemma cstep_accounted:
  assumes "accounted s0 s" "cstep s a = Some s'"
  shows "accounted s0 s'"
proof (cases a)
  case Main
  with assms show ?thesis using cmain_accounted[of s0 s s'] by simp
next
  case (Get i)
  with assms show ?thesis using worker_get_accounted[of s0 s i s'] by simp
next
  case (TaskDone i)
  with assms show ?thesis using worker_task_done_accounted[of s0 s i s'] by simp
next
  case ManagementEnds
  with assms show ?thesis by (auto simp: accounted_def split: if_splits)
next
  case RebootEnds
  with assms show ?thesis by (auto simp: accounted_def split: if_splits)
qed

lemma phase_no_range: "1 \<le> phase_no p \<and> phase_no p \<le> 7"
  by (cases p) simp_all

lemma phase_no_inj: "phase_no p = phase_no q \<Longrightarrow> p = q"
  by (cases p; cases q) simp_all

lemma count_absent: "x \<notin> set xs \<Longrightarrow> count_list xs x = 0"
  by (simp add: count_list_0_iff)

lemma after_join_pc_ok:
  assumes "pc_ok s" "c_pc s = Join p" "unfinished_tasks s p = 0"
  shows "pc_ok (after_join p s)"
proof -
  from assms(1,2) have early: "\<And>p'. phase_no p' < phase_no p \<Longrightarrow> unfinished_tasks s p' = 0"
    and late: "\<And>p'. phase_no p < phase_no p' \<Longrightarrow> p' \<notin> fst ` set (workers s)"
    and rb: "reboot_thread s = NotStarted"
    by (simp_all add: pc_ok_def)
  have upto: "unfinished_tasks s p' = 0" if "phase_no p' \<le> phase_no p" for p'
    using that early[of p'] assms(3) phase_no_inj[of p' p] by (cases "phase_no p' = phase_no p") auto
  have next_ok: "pc_ok (s\<lparr>c_pc := Spawn q 0\<rparr>)" if "phase_no q = phase_no p + 1" for q
  proof -
    have "q \<notin> fst ` set (workers s)" using late[of q] that by simp
    then have "count_list (map fst (workers s)) q = 0" by (simp add: count_absent)
    moreover have "unfinished_tasks s p' = 0" if "phase_no p' < phase_no q" for p'
      using upto[of p'] that \<open>phase_no q = phase_no p + 1\<close> by simp
    moreover have "p' \<notin> fst ` set (workers s)" if "phase_no q < phase_no p'" for p'
      using late[of p'] that \<open>phase_no q = phase_no p + 1\<close> by simp
    ultimately show ?thesis using rb by (simp add: pc_ok_def)
  qed
  have fin: "pc_ok (finish s)"
    if "p = CheckBond \<or> COMPUTE_OS (globals s) = ''ubuntu'' \<or> COMPUTE_OS (globals s) = ''centos''"
  proof -
    have sb: "unfinished_tasks s SetupBase = 0"
      using upto[of SetupBase] phase_no_range[of p] by simp
    have all: "unfinished_tasks s p' = 0" if "p = CheckBond" for p'
      using upto[of p'] phase_no_range[of p'] that by simp
    from sb all that have "drained s" by (auto simp: drained_def)
    then show ?thesis using rb by (simp add: finish_def pc_ok_def drained_def)
  qed
  show ?thesis
    by (cases p) (use next_ok fin in \<open>auto\<close>)
qed

lemma cmain_staged:
  assumes "staged s" "cmain s = Some s'"
  shows "staged s'"
proof -
  from assms(1) have pb: "pool_bounded s" and ba: "barrier s" and ok: "pc_ok s"
    by (simp_all add: staged_def)
  from assms(2) show ?thesis
  proof (cases rule: cmain_cases)
    case start
    with ok have "workers s = []" "reboot_thread s = NotStarted" by (simp_all add: pc_ok_def)
    moreover have nz: "phase_no p' \<noteq> 0" for p'
      using phase_no_range[of p'] by simp
    ultimately show ?thesis
      using pb ba start by (auto simp: staged_def pool_bounded_def barrier_def pc_ok_def nz)
  next
    case (spawn p k)
    with ok have cnt: "count_list (map fst (workers s)) p = k"
      and early: "\<forall>p'. phase_no p' < phase_no p \<longrightarrow> unfinished_tasks s p' = 0"
      and late: "\<forall>p'. phase_no p < phase_no p' \<longrightarrow> p' \<notin> fst ` set (workers s)"
      and rb: "reboot_thread s = NotStarted"
      by (simp_all add: pc_ok_def)
    have "pool_bounded s'"
      using pb cnt spawn(2,3) by (auto simp: pool_bounded_def)
    moreover have "barrier s'"
      using ba early spawn(3) by (auto simp: barrier_def)
    moreover have "pc_ok s'"
      using cnt early late rb spawn(2,3) by (auto simp: pc_ok_def)
    ultimately show ?thesis by (simp add: staged_def)
  next
    case (spawned p k)
    with pb ba ok show ?thesis
      by (auto simp: staged_def pool_bounded_def barrier_def pc_ok_def)
  next
    case (joined p)
    from after_join_pc_ok[OF ok joined(1,2)] joined(3) have "pc_ok s'" by simp
    moreover from pb joined(3) have "pool_bounded s'"
      by (simp add: pool_bounded_def after_join_fields)
    moreover from ba joined(3) have "barrier s'"
      by (simp add: barrier_def after_join_fields)
    ultimately show ?thesis by (simp add: staged_def)
  next
    case join_management
    with pb ba ok show ?thesis
      by (auto simp: staged_def pool_bounded_def barrier_def pc_ok_def drained_def)
  next
    case join_reboot
    with pb ba ok show ?thesis
      by (auto simp: staged_def pool_bounded_def barrier_def pc_ok_def drained_def)
  qed
qed

lemma pc_ok_same:
  assumes "pc_ok s" "c_pc s' = c_pc s" "map fst (workers s') = map fst (workers s)"
    "\<And>p. unfinished_tasks s p = 0 \<Longrightarrow> unfinished_tasks s' p = 0"
    "management_node_thread s' = management_node_thread s" "reboot_thread s' = reboot_thread s"
    "globals s' = globals s"
  shows "pc_ok s'"
proof -
  from assms(3) have f: "fst ` set (workers s') = fst ` set (workers s)"
    by (metis set_map)
  from assms(3) have e: "workers s' = [] \<longleftrightarrow> workers s = []"
    by (metis map_is_Nil_conv)
  show ?thesis
    using assms(1) assms(2-7) f e
    by (cases "c_pc s") (auto simp: pc_ok_def drained_def)
qed

lemma worker_get_staged:
  assumes "staged s" "worker_get i s = Some s'"
  shows "staged s'"
proof -
  from assms(1) have pb: "pool_bounded s" and ba: "barrier s" and ok: "pc_ok s"
    by (simp_all add: staged_def)
  from assms(2) show ?thesis
  proof (cases rule: worker_get_cases)
    case (took p node rest)
    from took(1,2) have mf: "map fst (workers s') = map fst (workers s)"
      using map_fst_update[of i "workers s" p "Some node"] took(4) by simp
    then have f: "fst ` set (workers s') = fst ` set (workers s)" by (metis set_map)
    from took(1,2) have mem: "p \<in> fst ` set (workers s)"
      by (metis fst_conv image_eqI nth_mem)
    have "pool_bounded s'" using pb mf by (simp add: pool_bounded_def)
    moreover have "barrier s'" using ba f mem took(4) by (auto simp: barrier_def)
    moreover have "pc_ok s'"
    proof (rule pc_ok_same[OF ok _ mf])
      show "c_pc s' = c_pc s" "management_node_thread s' = management_node_thread s"
        "reboot_thread s' = reboot_thread s" "globals s' = globals s"
        "\<And>p. unfinished_tasks s p = 0 \<Longrightarrow> unfinished_tasks s' p = 0"
        by (simp_all add: took(4))
    qed
    ultimately show ?thesis by (simp add: staged_def)
  qed
qed

lemma worker_task_done_staged:
  assumes "staged s" "worker_task_done i s = Some s'"
  shows "staged s'"
proof -
  from assms(1) have pb: "pool_bounded s" and ba: "barrier s" and ok: "pc_ok s"
    by (simp_all add: staged_def)
  from assms(2) show ?thesis
  proof (cases rule: worker_task_done_cases)
    case (finished p node)
    from finished(1,2) have mf: "map fst (workers s') = map fst (workers s)"
      using map_fst_update[of i "workers s" p None] finished(3) by simp
    then have f: "fst ` set (workers s') = fst ` set (workers s)" by (metis set_map)
    have "pool_bounded s'" using pb mf by (simp add: pool_bounded_def)
    moreover have "barrier s'" using ba f finished(3) by (auto simp: barrier_def)
    moreover have "pc_ok s'"
    proof (rule pc_ok_same[OF ok _ mf])
      show "c_pc s' = c_pc s" "management_node_thread s' = management_node_thread s"
        "reboot_thread s' = reboot_thread s" "globals s' = globals s"
        "\<And>p. unfinished_tasks s p = 0 \<Longrightarrow> unfinished_tasks s' p = 0"
        by (auto simp: finished(3))
    qed
    ultimately show ?thesis by (simp add: staged_def)
  qed
qed

lemma cstep_staged:
  assumes "staged s" "cstep s a = Some s'"
  shows "staged s'"
proof (cases a)
  case Main
  with assms show ?thesis using cmain_staged[of s s'] by simp
next
  case (Get i)
  with assms show ?thesis using worker_get_staged[of s i s'] by simp
next
  case (TaskDone i)
  with assms show ?thesis using worker_task_done_staged[of s i s'] by simp
next
  case ManagementEnds
  with assms have r: "management_node_thread s = Running"
    and s': "s' = s\<lparr>management_node_thread := Ended\<rparr>"
    by (auto split: if_splits)
  from assms(1) r s' show ?thesis
    by (cases "c_pc s")
       (auto simp: staged_def pool_bounded_def barrier_def pc_ok_def drained_def)
next
  case RebootEnds
  with assms have r: "reboot_thread s = Running"
    and s': "s' = s\<lparr>reboot_thread := Ended\<rparr>"
    by (auto split: if_splits)
  from assms(1) r s' show ?thesis
    by (cases "c_pc s")
       (auto simp: staged_def pool_bounded_def barrier_def pc_ok_def drained_def)
qed

lemma cexec_invariants:
  "accounted s0 s \<Longrightarrow> staged s \<Longrightarrow> cexec acts s = Some s' \<Longrightarrow> accounted s0 s' \<and> staged s'"
proof (induction acts arbitrary: s)
  case Nil
  then show ?case by simp
next
  case (Cons a acts)
  from Cons.prems(3) obtain s1 where s1: "cstep s a = Some s1" and rest: "cexec acts s1 = Some s'"
    by (auto split: option.splits)
  from Cons.IH[OF cstep_accounted[OF Cons.prems(1) s1] cstep_staged[OF Cons.prems(2) s1] rest]
  show ?case .
qed

text \<open>The state in which the steps start.\<close>

lemma put_fields:
  "workers (put p node s) = workers s" "begun (put p node s) = begun s"
  "completed (put p node s) = completed s" "c_pc (put p node s) = c_pc s"
  "management_node_thread (put p node s) = management_node_thread s"
  "reboot_thread (put p node s) = reboot_thread s" "globals (put p node s) = globals s"
  "messages (put p node s) = messages s"
  by (simp_all add: put_def)

lemma raised_fields:
  "raised (put p node s) = raised s" "raised (s\<lparr>globals := g\<rparr>) = raised s"
  "raised (raise_in e s)"
  by (simp_all add: raised_def put_def raise_in_def)

lemma put_loaded: "loaded s \<Longrightarrow> loaded (put p node s)"
  by (simp add: loaded_def put_fields raised_fields) (simp add: put_def)

lemma raise_in_loaded: "loaded s \<Longrightarrow> loaded (raise_in e s)"
  by (simp add: loaded_def raised_fields) (simp add: raise_in_def)

lemma globals_loaded: "loaded s \<Longrightarrow> loaded (s\<lparr>globals := g\<rparr>)"
  by (simp add: loaded_def raised_fields)

lemma add_node_loaded: "loaded s \<Longrightarrow> loaded (add_node node s)"
  unfolding add_node_def Let_def
  by (auto intro!: put_loaded raise_in_loaded globals_loaded split: sum.splits)

lemma add_nodes_loaded: "loaded s \<Longrightarrow> loaded (add_nodes nodes s)"
  by (induction nodes arbitrary: s) (simp_all add: add_node_loaded)

lemma fresh_run_loaded: "loaded (fresh_run fs cos mos)"
  by (simp add: loaded_def fresh_run_def)

lemma start_invariants:
  "accounted (deploy_to_all_start fs cos mos nodes) (deploy_to_all_start fs cos mos nodes)
   \<and> staged (deploy_to_all_start fs cos mos nodes)"
proof -
  let ?s = "add_nodes nodes (fresh_run fs cos mos)"
  have l: "loaded ?s" by (rule add_nodes_loaded[OF fresh_run_loaded])
  show ?thesis
  proof (cases "raised ?s")
    case True
    then obtain e where "c_pc ?s = Raised e"
      by (auto simp: raised_def split: cpc.splits)
    with l True show ?thesis
      by (simp add: deploy_to_all_start_def loaded_def accounted_def staged_def
          pool_bounded_def barrier_def pc_ok_def Let_def)
  next
    case False
    with l have pc: "c_pc ?s = Start" by (simp add: loaded_def)
    show ?thesis
    proof (cases "missing_package ?s")
      case None
      with l False pc show ?thesis
        by (simp add: deploy_to_all_start_def loaded_def accounted_def staged_def
            pool_bounded_def barrier_def pc_ok_def Let_def)
    next
      case (Some msg)
      with l False pc show ?thesis
        by (simp add: deploy_to_all_start_def loaded_def accounted_def staged_def
            pool_bounded_def barrier_def pc_ok_def Let_def)
    qed
  qed
qed

lemma reachable_invariants:
  assumes "cexec acts (deploy_to_all_start fs cos mos nodes) = Some s"
  shows "accounted (deploy_to_all_start fs cos mos nodes) s \<and> staged s"
  using cexec_invariants[OF _ _ assms] start_invariants by blast

lemma complete_when_drained:
  assumes "accounted s0 s" "unfinished_tasks s p = 0"
  shows "mset (completed s p) = mset (queue s0 p)"
proof -
  from assms have e: "queue s p = []" "busy_nodes (workers s) p = []"
    by (simp_all add: accounted_def)
  from assms(1) have "begun s p @ queue s p = queue s0 p"
    and "mset (begun s p) = mset (completed s p) + mset (busy_nodes (workers s) p)"
    by (simp_all add: accounted_def)
  with e show ?thesis by simp
qed

lemma add_node_globals:
  "COMPUTE_OS (globals (add_node node s)) = COMPUTE_OS (globals s)"
  "MGMT_OS (globals (add_node node s)) = MGMT_OS (globals s)"
  "files (globals (add_node node s)) = files (globals s)"
  by (simp_all add: add_node_def Let_def put_fields raise_in_def split: sum.splits)

lemma add_nodes_globals:
  "COMPUTE_OS (globals (add_nodes nodes s)) = COMPUTE_OS (globals s)
   \<and> MGMT_OS (globals (add_nodes nodes s)) = MGMT_OS (globals s)
   \<and> files (globals (add_nodes nodes s)) = files (globals s)"
  by (induction nodes arbitrary: s) (simp_all add: add_node_globals)

lemma start_COMPUTE_OS: "COMPUTE_OS (globals (deploy_to_all_start fs cos mos nodes)) = cos"
  using add_nodes_globals[of nodes "fresh_run fs cos mos"]
  by (simp add: deploy_to_all_start_def Let_def fresh_run_def split: option.splits)

text \<open>What \<^verbatim>\<open>generate_command_for_node\<close> reads of the globals: the two operating systems
  and the master of the node's pool.\<close>

lemma ubuntu_scripts_world: "ubuntu_scripts node w = ubuntu_scripts node w'"
  by (cases "interface_config node")
     (simp_all add: ubuntu_scripts_def generate_interface_config_def bindE_def)

lemma generate_command_for_node_world:
  assumes "COMPUTE_OS w = COMPUTE_OS w'" "MGMT_OS w = MGMT_OS w'"
    "MASTER_NODES w (dict_key (xenserver_pool node))
       = MASTER_NODES w' (dict_key (xenserver_pool node))"
  shows "generate_command_for_node node w = generate_command_for_node node w'"
  unfolding generate_command_for_node_def xenserver_scripts_def assms
    ubuntu_scripts_world[of node w w'] ..

text \<open>A pool member that is not the master of its pool, under XenServer: the call
  raises, whatever the node holds.\<close>

lemma generate_command_for_node_slave:
  assumes "COMPUTE_OS w = ''xenserver''" "role node = PStr ''compute''"
    "MASTER_NODES w (dict_key (xenserver_pool node)) = Some master"
    "\<not> py_eq (hostname master) (hostname node)"
  shows "generate_command_for_node node w = Inl (UnboundLocalError ''bond_intfs'')"
  using assms
  by (simp add: generate_command_for_node_def xenserver_scripts_def bindE_def)

lemma example_roles:
  "role example_management_node = PStr ''management''"
  "role example_compute_node = PStr ''compute''"
  "role example_xen_node = PStr ''compute''"
  "xenserver_pool example_xen_node = PStr ''pool1''"
  by (simp_all add: example_management_node_def example_compute_node_def example_xen_node_def)

lemma all_packages_present:
  "all_packages (''/tmp/'' @ CS_COMMON) \<noteq> None" "all_packages (''/tmp/'' @ CS_MGMT) \<noteq> None"
  "all_packages (''/tmp/'' @ CS_AGENT) \<noteq> None" "all_packages (''/tmp/'' @ CS_COMMON_RPM) \<noteq> None"
  "all_packages (''/tmp/'' @ CS_MGMT_RPM) \<noteq> None" "all_packages (''/tmp/'' @ CS_AWSAPI_RPM) \<noteq> None"
  "all_packages (''/tmp/'' @ CS_AGENT_RPM) \<noteq> None"
  by (simp_all add: all_packages_def CS_COMMON_def CS_MGMT_def CS_AGENT_def CS_COMMON_RPM_def
      CS_MGMT_RPM_def CS_AWSAPI_RPM_def CS_AGENT_RPM_def)

lemma missing_none_all_packages:
  "files (globals s) = all_packages \<Longrightarrow> missing_package s = None"
  using all_packages_present by (simp add: missing_package_def isfile_tmp_def Let_def)

text \<open>The scripts of the example nodes of an Ubuntu deployment are written without an
  exception.\<close>

lemma generate_command_for_node_ubuntu:
  assumes "COMPUTE_OS w = ''ubuntu''" "MGMT_OS w = ''ubuntu''"
    "\<not> isl (ubuntu_scripts node (globals (fresh_run Map.empty [] [])))"
  shows "generate_command_for_node node w = Inr ()"
proof -
  from assms(3) obtain t where "ubuntu_scripts node (globals (fresh_run Map.empty [] [])) = Inr t"
    by (cases "ubuntu_scripts node (globals (fresh_run Map.empty [] []))") simp_all
  then have "ubuntu_scripts node w = Inr t"
    using ubuntu_scripts_world[of node w "globals (fresh_run Map.empty [] [])"] by simp
  with assms(1,2) show ?thesis
    by (simp add: generate_command_for_node_def bindE_def)
qed

lemma example_scripts:
  "\<not> isl (ubuntu_scripts example_management_node (globals (fresh_run Map.empty [] [])))"
  "\<not> isl (ubuntu_scripts example_compute_node (globals (fresh_run Map.empty [] [])))"
  by code_simp+

lemma start_ubuntu:
  "deploy_to_all_start all_packages ''ubuntu'' ''ubuntu'' [example_management_node, example_compute_node]
   = put CheckBond example_compute_node (put ChangeMgmtIntf example_compute_node
       (put SetupBase example_compute_node
          ((fresh_run all_packages ''ubuntu'' ''ubuntu'')
             \<lparr>globals := (globals (fresh_run all_packages ''ubuntu'' ''ubuntu''))
                           \<lparr>MANAGEMENT_NODE := Some example_management_node\<rparr>\<rparr>)))"
proof -
  let ?f = "fresh_run all_packages ''ubuntu'' ''ubuntu''"
  let ?s1 = "?f\<lparr>globals := (globals ?f)\<lparr>MANAGEMENT_NODE := Some example_management_node\<rparr>\<rparr>"
  let ?s2 = "put CheckBond example_compute_node (put ChangeMgmtIntf example_compute_node
       (put SetupBase example_compute_node ?s1))"
  have nr: "\<not> raised ?f" by (simp add: raised_def fresh_run_def)
  have 1: "add_node example_management_node ?f = ?s1"
    using generate_command_for_node_ubuntu[OF _ _ example_scripts(1), of "globals ?s1"] nr
    by (simp add: add_node_def Let_def example_roles raised_fields fresh_run_def)
  have nr1: "\<not> raised ?s1" by (simp add: raised_def fresh_run_def)
  have 2: "add_node example_compute_node ?s1 = ?s2"
    using generate_command_for_node_ubuntu[OF _ _ example_scripts(2), of "globals ?s2"] nr1
    by (simp add: add_node_def Let_def example_roles raised_fields put_fields fresh_run_def)
  have nr2: "\<not> raised ?s2" using nr1 by (simp add: raised_fields)
  have "add_nodes [example_management_node, example_compute_node] ?f = ?s2"
    using 1 2 nr1 nr2 by simp
  moreover have "missing_package ?s2 = None"
    by (rule missing_none_all_packages) (simp add: put_fields fresh_run_def)
  ultimately show ?thesis
    using nr2 by (simp add: deploy_to_all_start_def Let_def)
qed

text \<open>A XenServer pool of two nodes: the loop over the nodes raises at the second, and
  \<^verbatim>\<open>deploy_to_all\<close> ends there, before any thread exists.\<close>

lemma xenserver_pool_of_two_raises:
  "c_pc (deploy_to_all_start all_packages ''xenserver'' ''ubuntu''
           [example_xen_node, example_xen_slave]) = Raised (UnboundLocalError ''bond_intfs'')
   \<and> cstep (deploy_to_all_start all_packages ''xenserver'' ''ubuntu''
           [example_xen_node, example_xen_slave]) Main = None"
  by code_simp

lemma busy_member: "(p, Some m) \<in> set ws \<Longrightarrow> m \<in> set (busy_nodes ws p)"
  by (induction ws p rule: busy_nodes.induct) auto

lemma working_count:
  "(\<forall>w \<in> set ws. snd w \<noteq> None \<longrightarrow> fst w = q) \<Longrightarrow>
     length (filter (\<lambda>w. snd w \<noteq> None) ws) \<le> count_list (map fst ws) q"
  by (induction ws) auto

lemma idle_when_drained:
  assumes "accounted s0 s" "unfinished_tasks s p = 0"
  shows "busy_nodes (workers s) p = []"
  using assms by (simp add: accounted_def)

lemma working_bound:
  assumes "accounted s0 s" "staged s"
  shows "length (working s) \<le> MAX_WORKERS"
proof (cases "working s")
  case Nil
  then show ?thesis by simp
next
  case (Cons w ws)
  then have "w \<in> set (working s)" by simp
  then have mem: "w \<in> set (workers s)" and some: "snd w \<noteq> None"
    unfolding working_def by simp_all
  obtain q n where weq: "w = (q, Some n)"
    using some by (cases w) auto
  with mem have w: "(q, Some n) \<in> set (workers s)" by simp
  from assms(2) have ba: "barrier s" and pb: "pool_bounded s" by (simp_all add: staged_def)
  have same: "fst w' = q" if inw: "w' \<in> set (workers s)" and sw: "snd w' \<noteq> None" for w'
  proof (rule ccontr)
    assume ne: "fst w' \<noteq> q"
    obtain p m where w': "w' = (p, Some m)"
      using sw by (cases w') auto
    with ne have "phase_no p \<noteq> phase_no q" using phase_no_inj by auto
    then consider "phase_no p < phase_no q" | "phase_no q < phase_no p" by linarith
    then show False
    proof cases
      case 1
      from w have "q \<in> fst ` set (workers s)" by force
      with ba 1 have "unfinished_tasks s p = 0" by (auto simp: barrier_def)
      from idle_when_drained[OF assms(1) this] busy_member[of p m "workers s"] inw w'
      show False by simp
    next
      case 2
      from inw w' have "p \<in> fst ` set (workers s)" by force
      with ba 2 have "unfinished_tasks s q = 0" by (auto simp: barrier_def)
      from idle_when_drained[OF assms(1) this] busy_member[OF w]
      show False by simp
    qed
  qed
  then have "length (working s) \<le> count_list (map fst (workers s)) q"
    unfolding working_def by (intro working_count) blast
  moreover from pb have "count_list (map fst (workers s)) q \<le> MAX_WORKERS"
    by (simp add: pool_bounded_def)
  ultimately show ?thesis by simp
qed

section \<open>The claims on the CloudStack deploy_to_all\<close>

text \<open>
  C1, as the code has it. In every state that a run can reach, under any interleaving:
  when the work of a node has begun in a phase with a queue, every node of every earlier
  phase with a queue has been completed; and when the reboot of the management node has
  started, the set-up of the management node has ended and every node of step 1 (of all
  seven steps, in a XenServer deployment) has been completed. The set-up of the
  management node itself is no barrier: its thread is started at step 0 and joined only
  before the reboot, so it runs alongside the phases with a queue.
\<close>

theorem C1_phase_barrier:
  assumes "cexec acts (deploy_to_all_start fs cos mos nodes) = Some s"
  shows "(\<forall>p q. phase_no p < phase_no q \<and> begun s q \<noteq> [] \<longrightarrow>
            mset (completed s p) = mset (queue (deploy_to_all_start fs cos mos nodes) p))
    \<and> (reboot_thread s \<noteq> NotStarted \<longrightarrow>
          management_node_thread s = Ended
          \<and> mset (completed s SetupBase)
              = mset (queue (deploy_to_all_start fs cos mos nodes) SetupBase)
          \<and> (cos \<noteq> ''ubuntu'' \<and> cos \<noteq> ''centos'' \<longrightarrow>
                (\<forall>p. mset (completed s p)
                       = mset (queue (deploy_to_all_start fs cos mos nodes) p))))"
proof -
  let ?s0 = "deploy_to_all_start fs cos mos nodes"
  from reachable_invariants[OF assms] have acc: "accounted ?s0 s" and st: "staged s"
    by simp_all
  from st have ba: "barrier s" and ok: "pc_ok s" by (simp_all add: staged_def)
  from acc have cos: "COMPUTE_OS (globals s) = cos"
    by (simp add: accounted_def start_COMPUTE_OS)
  have 1: "mset (completed s p) = mset (queue ?s0 p)"
    if "phase_no p < phase_no q" "begun s q \<noteq> []" for p q
  proof -
    from ba that(2) have "q \<in> fst ` set (workers s)" by (simp add: barrier_def)
    with ba that(1) have "unfinished_tasks s p = 0" by (auto simp: barrier_def)
    from complete_when_drained[OF acc this] show ?thesis .
  qed
  have 2: "management_node_thread s = Ended
          \<and> mset (completed s SetupBase) = mset (queue ?s0 SetupBase)
          \<and> (cos \<noteq> ''ubuntu'' \<and> cos \<noteq> ''centos'' \<longrightarrow>
                (\<forall>p. mset (completed s p) = mset (queue ?s0 p)))"
    if "reboot_thread s \<noteq> NotStarted"
  proof -
    from ok that have "drained s \<and> management_node_thread s = Ended"
      by (cases "c_pc s") (simp_all add: pc_ok_def)
    with cos complete_when_drained[OF acc] show ?thesis
      by (simp add: drained_def)
  qed
  from 1 2 show ?thesis by blast
qed

text \<open>A XenServer deployment of one node, the master of its pool: the work of step 3
  begins after the node has been completed in step 1. An Ubuntu deployment of a
  management node and a compute node: the reboot starts after both are done.\<close>

theorem C1_phase_barrier_witness:
  "(\<exists>s. cexec (Main # replicate 11 Main @ [Get 0, TaskDone 0, Main]
                @ replicate 11 Main @ [Main] @ replicate 11 Main @ [Get 20])
            (deploy_to_all_start all_packages ''xenserver'' ''ubuntu'' [example_xen_node]) = Some s
         \<and> begun s AssignIp \<noteq> []
         \<and> mset (completed s SetupBase)
             = mset (queue (deploy_to_all_start all_packages ''xenserver'' ''ubuntu''
                              [example_xen_node]) SetupBase)
         \<and> length (queue (deploy_to_all_start all_packages ''xenserver'' ''ubuntu''
                              [example_xen_node]) SetupBase) = 1)
   \<and> (\<exists>s. cexec (Main # replicate 11 Main @ [Get 0, TaskDone 0, Main, ManagementEnds, Main])
            (deploy_to_all_start all_packages ''ubuntu'' ''ubuntu''
               [example_management_node, example_compute_node]) = Some s
         \<and> reboot_thread s \<noteq> NotStarted
         \<and> management_node_thread s = Ended
         \<and> mset (completed s SetupBase)
             = mset (queue (deploy_to_all_start all_packages ''ubuntu'' ''ubuntu''
                              [example_management_node, example_compute_node]) SetupBase))"
proof -
  have "map_option (\<lambda>s. begun s AssignIp \<noteq> [])
     (cexec (Main # replicate 11 Main @ [Get 0, TaskDone 0, Main]
                @ replicate 11 Main @ [Main] @ replicate 11 Main @ [Get 20])
        (deploy_to_all_start all_packages ''xenserver'' ''ubuntu'' [example_xen_node]))
     = Some True"
    by code_simp
  then obtain s where r: "cexec (Main # replicate 11 Main @ [Get 0, TaskDone 0, Main]
                @ replicate 11 Main @ [Main] @ replicate 11 Main @ [Get 20])
        (deploy_to_all_start all_packages ''xenserver'' ''ubuntu'' [example_xen_node]) = Some s"
    and b: "begun s AssignIp \<noteq> []"
    by (auto simp: map_option_eq_Some)
  have n: "length (queue (deploy_to_all_start all_packages ''xenserver'' ''ubuntu''
                              [example_xen_node]) SetupBase) = 1"
    by code_simp
  from C1_phase_barrier[OF r]
  have "\<forall>p q. phase_no p < phase_no q \<and> begun s q \<noteq> [] \<longrightarrow>
          mset (completed s p)
            = mset (queue (deploy_to_all_start all_packages ''xenserver'' ''ubuntu''
                             [example_xen_node]) p)"
    by blast
  from this[rule_format, of SetupBase AssignIp] b
  have c: "mset (completed s SetupBase)
            = mset (queue (deploy_to_all_start all_packages ''xenserver'' ''ubuntu''
                             [example_xen_node]) SetupBase)"
    by simp
  have "map_option (\<lambda>s. reboot_thread s \<noteq> NotStarted)
     (cexec (Main # replicate 11 Main @ [Get 0, TaskDone 0, Main, ManagementEnds, Main])
        (deploy_to_all_start all_packages ''ubuntu'' ''ubuntu''
           [example_management_node, example_compute_node])) = Some True"
    by code_simp
  then obtain s' where r': "cexec (Main # replicate 11 Main
                @ [Get 0, TaskDone 0, Main, ManagementEnds, Main])
        (deploy_to_all_start all_packages ''ubuntu'' ''ubuntu''
           [example_management_node, example_compute_node]) = Some s'"
    and b': "reboot_thread s' \<noteq> NotStarted"
    by (auto simp: map_option_eq_Some)
  from C1_phase_barrier[OF r'] b'
  have c': "management_node_thread s' = Ended
     \<and> mset (completed s' SetupBase)
         = mset (queue (deploy_to_all_start all_packages ''ubuntu'' ''ubuntu''
                          [example_management_node, example_compute_node]) SetupBase)"
    by blast
  from r b c n r' b' c' show ?thesis by blast
qed

text \<open>
  The claim as stated fails for the first pair of phases: with a management node and a
  compute node, the worker of step 1 takes the compute node while the thread that sets
  up the management node is still running.
\<close>

theorem C1_counterexample:
  "map_option (begun_in SetupBase)
     (cexec [Main, Main, Get 0]
        (deploy_to_all_start all_packages ''ubuntu'' ''ubuntu''
           [example_management_node, example_compute_node]))
   = Some [example_compute_node]
   \<and> map_option management_node_thread
     (cexec [Main, Main, Get 0]
        (deploy_to_all_start all_packages ''ubuntu'' ''ubuntu''
           [example_management_node, example_compute_node]))
   = Some Running"
  by (simp add: start_ubuntu fresh_run_def put_def cmain_def worker_get_def MAX_WORKERS_def
      begun_in_def)

text \<open>
  C6. A required package can be missing without \<^verbatim>\<open>deploy_to_all\<close> returning from a
  guard. An Ubuntu deployment of one node, the management node, with \<^verbatim>\<open>/tmp\<close> holding
  the \<^verbatim>\<open>.rpm\<close> of the common and of the management package and neither \<^verbatim>\<open>.deb\<close>:
  the manifest of the node installs the two \<^verbatim>\<open>.deb\<close>, which are not there; the guards
  on the common and on the management package look for either format, find the \<^verbatim>\<open>.rpm\<close>
  and let the run go on (the guards on the agent package test the format of the compute
  OS). The thread that sets up the management node is started, and the ten workers of
  step 1 are spawned.
\<close>

theorem C6_missing_deb_not_refused:
  "set (puppet_packages example_management_node) = {CS_COMMON, CS_MGMT}
   \<and> \<not> isfile_tmp (globals (deploy_to_all_start rpm_packages ''ubuntu'' ''ubuntu''
                                 [example_management_node])) CS_COMMON
   \<and> \<not> isfile_tmp (globals (deploy_to_all_start rpm_packages ''ubuntu'' ''ubuntu''
                                 [example_management_node])) CS_MGMT
   \<and> c_pc (deploy_to_all_start rpm_packages ''ubuntu'' ''ubuntu'' [example_management_node])
       = Start
   \<and> map_option management_node_thread
       (cexec [Main] (deploy_to_all_start rpm_packages ''ubuntu'' ''ubuntu''
                        [example_management_node])) = Some Running
   \<and> map_option (blocked_in_get SetupBase)
       (cexec (Main # replicate 10 Main)
          (deploy_to_all_start rpm_packages ''ubuntu'' ''ubuntu'' [example_management_node]))
       = Some 10"
  by code_simp

text \<open>
  C8. In every reachable state of the OpenStack deployer at most \<^verbatim>\<open>MAX_THREADS\<close>
  threads are alive (started and not ended), for any number of nodes. In every reachable
  state of the CloudStack deployer no phase has more than \<^verbatim>\<open>MAX_WORKERS\<close> worker
  threads, and at most \<^verbatim>\<open>MAX_WORKERS\<close> workers are working on a node, the workers of
  the earlier phases being blocked in \<^verbatim>\<open>get()\<close> on their drained queues.
\<close>

theorem C8_worker_pools_are_bounded:
  assumes "dexec behaviour dacts (deploy_to_all_init hosts) = Some d"
    and "cexec acts (deploy_to_all_start fs cos mos nodes) = Some s"
  shows "length (d_alive d) \<le> MAX_THREADS
    \<and> (\<forall>p. count_list (map fst (workers s)) p \<le> MAX_WORKERS)
    \<and> length (working s) \<le> MAX_WORKERS"
proof -
  from reachable_dinv[OF assms(1)] have "length (d_alive d) \<le> MAX_THREADS"
    by (rule alive_bound)
  moreover from reachable_invariants[OF assms(2)]
  have acc: "accounted (deploy_to_all_start fs cos mos nodes) s" and st: "staged s"
    by simp_all
  from st have "\<forall>p. count_list (map fst (workers s)) p \<le> MAX_WORKERS"
    by (simp add: staged_def pool_bounded_def)
  moreover from working_bound[OF acc st] have "length (working s) \<le> MAX_WORKERS" .
  ultimately show ?thesis by blast
qed

theorem C8_worker_pools_are_bounded_witness:
  "\<exists>d s. dexec (\<lambda>i. Succeeds None) [MainStep, MainStep] (deploy_to_all_init [''node1'', ''node2''])
            = Some d
     \<and> cexec [Main, Main, Get 0]
          (deploy_to_all_start all_packages ''ubuntu'' ''ubuntu''
             [example_management_node, example_compute_node]) = Some s
     \<and> length (d_alive d) \<le> MAX_THREADS
     \<and> (\<forall>p. count_list (map fst (workers s)) p \<le> MAX_WORKERS)
     \<and> length (working s) \<le> MAX_WORKERS"
proof -
  have "map_option (\<lambda>d. length (d_alive d))
          (dexec (\<lambda>i. Succeeds None) [MainStep, MainStep]
             (deploy_to_all_init [''node1'', ''node2''])) = Some 2"
    by code_simp
  then obtain d where rd: "dexec (\<lambda>i. Succeeds None) [MainStep, MainStep]
             (deploy_to_all_init [''node1'', ''node2'']) = Some d"
    by (auto simp: map_option_eq_Some)
  have "map_option (\<lambda>s. length (working s))
          (cexec [Main, Main, Get 0]
             (deploy_to_all_start all_packages ''ubuntu'' ''ubuntu''
                [example_management_node, example_compute_node])) = Some 1"
    by code_simp
  then obtain s where rs: "cexec [Main, Main, Get 0]
             (deploy_to_all_start all_packages ''ubuntu'' ''ubuntu''
                [example_management_node, example_compute_node]) = Some s"
    by (auto simp: map_option_eq_Some)
  from C8_worker_pools_are_bounded[OF rd rs] rd rs show ?thesis by blast
qed

text \<open>
  C9, as the code has it. For a phase whose queue holds no node when the steps start: in
  every reachable state the queue has no unfinished task, so the join of the phase is
  enabled as soon as the main thread reaches it. The \<^verbatim>\<open>MAX_WORKERS\<close> workers of the
  phase have been spawned by then all the same; each of them is in \<^verbatim>\<open>get()\<close> and can
  never take a node.
\<close>

theorem C9_empty_queue_join:
  assumes "cexec acts (deploy_to_all_start fs cos mos nodes) = Some s"
    and "queue (deploy_to_all_start fs cos mos nodes) p = []"
  shows "unfinished_tasks s p = 0
    \<and> (c_pc s = Join p \<longrightarrow>
          cstep s Main = Some (after_join p s)
          \<and> count_list (map fst (workers s)) p = MAX_WORKERS)
    \<and> (\<forall>i < length (workers s). fst (workers s ! i) = p \<longrightarrow>
          snd (workers s ! i) = None \<and> cstep s (Get i) = None)"
proof -
  from reachable_invariants[OF assms(1)]
  have acc: "accounted (deploy_to_all_start fs cos mos nodes) s" and st: "staged s"
    by simp_all
  from acc have a: "begun s p @ queue s p = queue (deploy_to_all_start fs cos mos nodes) p"
    and m: "mset (begun s p) = mset (completed s p) + mset (busy_nodes (workers s) p)"
    and u: "unfinished_tasks s p = length (queue s p) + length (busy_nodes (workers s) p)"
    by (simp_all add: accounted_def)
  from a assms(2) have q: "queue s p = []" and b: "begun s p = []"
    by simp_all
  from m b have busy: "busy_nodes (workers s) p = []"
    by simp
  from u q busy have 1: "unfinished_tasks s p = 0" by simp
  have 2: "cstep s Main = Some (after_join p s)
          \<and> count_list (map fst (workers s)) p = MAX_WORKERS" if "c_pc s = Join p"
    using that 1 st by (simp add: cmain_def staged_def pc_ok_def)
  have 3: "snd (workers s ! i) = None \<and> cstep s (Get i) = None"
    if lt: "i < length (workers s)" and ph: "fst (workers s ! i) = p" for i
  proof -
    have idle: "snd (workers s ! i) = None"
    proof (rule ccontr)
      assume "snd (workers s ! i) \<noteq> None"
      with ph obtain m where "workers s ! i = (p, Some m)"
        by (cases "workers s ! i") auto
      with lt have "(p, Some m) \<in> set (workers s)" by (metis nth_mem)
      from busy_member[OF this] busy show False by simp
    qed
    with ph have "workers s ! i = (p, None)" by (cases "workers s ! i") auto
    with lt q idle show ?thesis by (simp add: worker_get_def)
  qed
  from 1 2 3 show ?thesis by blast
qed

theorem C9_empty_queue_join_witness:
  "\<exists>s. cexec (Main # replicate 11 Main @ [Get 0, TaskDone 0, Main] @ replicate 11 Main)
          (deploy_to_all_start all_packages ''xenserver'' ''ubuntu'' [example_xen_node]) = Some s
     \<and> queue (deploy_to_all_start all_packages ''xenserver'' ''ubuntu'' [example_xen_node])
          JoinCluster = []
     \<and> c_pc s = Join JoinCluster
     \<and> unfinished_tasks s JoinCluster = 0
     \<and> cstep s Main = Some (after_join JoinCluster s)
     \<and> count_list (map fst (workers s)) JoinCluster = MAX_WORKERS
     \<and> 10 < length (workers s) \<and> fst (workers s ! 10) = JoinCluster
     \<and> snd (workers s ! 10) = None \<and> cstep s (Get 10) = None"
proof -
  have q: "queue (deploy_to_all_start all_packages ''xenserver'' ''ubuntu'' [example_xen_node])
          JoinCluster = []"
    by code_simp
  have "map_option (\<lambda>s. (c_pc s, 10 < length (workers s), fst (workers s ! 10)))
     (cexec (Main # replicate 11 Main @ [Get 0, TaskDone 0, Main] @ replicate 11 Main)
        (deploy_to_all_start all_packages ''xenserver'' ''ubuntu'' [example_xen_node]))
     = Some (Join JoinCluster, True, JoinCluster)"
    by code_simp
  then obtain s where r: "cexec (Main # replicate 11 Main @ [Get 0, TaskDone 0, Main]
          @ replicate 11 Main)
        (deploy_to_all_start all_packages ''xenserver'' ''ubuntu'' [example_xen_node]) = Some s"
    and pc: "c_pc s = Join JoinCluster"
    and w: "10 < length (workers s)" "fst (workers s ! 10) = JoinCluster"
    by (auto simp: map_option_eq_Some)
  from C9_empty_queue_join[OF r q] pc w
  have "unfinished_tasks s JoinCluster = 0
     \<and> cstep s Main = Some (after_join JoinCluster s)
     \<and> count_list (map fst (workers s)) JoinCluster = MAX_WORKERS
     \<and> snd (workers s ! 10) = None \<and> cstep s (Get 10) = None"
    by blast
  with r q pc w show ?thesis by blast
qed

text \<open>
  The claim as stated fails in its second half: a XenServer deployment of a single node,
  which has no node for step 2, run to the return of \<^verbatim>\<open>deploy_to_all\<close>. The ten workers
  of step 2 exist, their queue is empty, and each is blocked in \<^verbatim>\<open>get()\<close>.
\<close>

theorem C9_counterexample:
  "map_option c_pc
     (cexec (Main # replicate 11 Main @ [Get 0, TaskDone 0, Main]
             @ replicate 11 Main @ [Main]
             @ replicate 11 Main @ [Get 20, TaskDone 20, Main]
             @ replicate 11 Main @ [Get 30, TaskDone 30, Main]
             @ replicate 11 Main @ [Get 40, TaskDone 40, Main]
             @ replicate 11 Main @ [Main]
             @ replicate 11 Main @ [Get 60, TaskDone 60, Main])
        (deploy_to_all_start all_packages ''xenserver'' ''ubuntu'' [example_xen_node]))
   = Some Returned
   \<and> map_option (blocked_in_get JoinCluster)
     (cexec (Main # replicate 11 Main @ [Get 0, TaskDone 0, Main]
             @ replicate 11 Main @ [Main]
             @ replicate 11 Main @ [Get 20, TaskDone 20, Main]
             @ replicate 11 Main @ [Get 30, TaskDone 30, Main]
             @ replicate 11 Main @ [Get 40, TaskDone 40, Main]
             @ replicate 11 Main @ [Main]
             @ replicate 11 Main @ [Get 60, TaskDone 60, Main])
        (deploy_to_all_start all_packages ''xenserver'' ''ubuntu'' [example_xen_node]))
   = Some 10"
  by code_simp

end
